theory Spec2Isabelle
  imports Main "HOL-Library.Sublist" "HOL-Library.Char_ord" "HOL-Library.List_Lexorder"
begin

section \<open>Data model of lib/hashly.js\<close>

text \<open>
  A manifest entry is the object built by \<open>createManifestEntry\<close>. The properties that
  the code adds and deletes at run time are optional fields: \<open>hashCode\<close> is absent on an
  entry parsed from a previous manifest, \<open>unverified\<close> is the marker set by
  \<open>createManifest\<close> and removed by \<open>delete\<close>, \<open>transformedText\<close> is set by
  \<open>createManifestEntryCss\<close>. The other properties, which plugins contribute, are kept in
  \<open>extra\<close>, in insertion order. Property values are strings.
\<close>

record entry =
  path :: string
  pathPhysical :: string
  hashedPath :: string
  hashedPathPhysical :: string
  hashCode :: "string option"
  unverified :: bool
  transformedText :: "string option"
  extra :: "(string \<times> string) list"

text \<open>What remains of an entry in the manifest file (the result of the trimming in
  \<open>processFiles\<close>, and what the serializer parses back).\<close>

record trimmed =
  tpath :: string
  thashedPath :: string
  ttransformedText :: "string option"
  textra :: "(string \<times> string) list"

text \<open>Entries are JavaScript objects shared between \<open>data.manifest\<close> and
  \<open>data.lookupMap\<close>: a reference is an index into the object store.\<close>

type_synonym ref = nat

datatype fs_op = CopyOp string string | WriteOp string string | DeleteOp string

text \<open>
  The session is the \<open>data\<close> object of \<open>createManifest\<close> (\<open>manifest\<close>, \<open>errors\<close>,
  \<open>lookupMap\<close>) together with what the run mutates besides it: the store of entry objects
  and the file system (contents by path, and the trace of the copies, writes and deletions
  performed so far).
\<close>

record session =
  manifest :: "ref list"
  errors :: "string list"
  lookupMap :: "string \<rightharpoonup> ref"
  store :: "entry list"
  files :: "string \<rightharpoonup> string"
  trace :: "fs_op list"

text \<open>
  What a read of \<open>data.lookupMap[fullPath]\<close> gives, and what \<open>processEntry\<close> returns: an
  entry object, a falsy value (\<open>undefined\<close>, \<open>null\<close>, the empty string), or a truthy
  value that is not an entry and has no property \<open>unverified\<close>, \<open>hashedPath\<close> or
  \<open>hashedPathPhysical\<close>: a function or an object that \<open>data.lookupMap\<close>, created as
  \<open>{}\<close>, inherits from \<open>Object.prototype\<close>, a non-empty string, \<open>true\<close>.
\<close>

datatype jsvalue = Falsy | Object ref | Truthy

datatype css_token = Text string | Url string

text \<open>
  The modules required by hashly.js that are not part of it (hash-pattern,
  hashcode-generator, file-system-util, css-processor, serializer-factory, minimatch,
  Node's path and Date) are parameters. \<open>generateForFile\<close> reads the file system and can
  throw; \<open>writeError\<close> gives the message of the I/O error raised when a path cannot be
  written; \<open>parse\<close> can throw; \<open>subtractDays now n\<close> is the time of
  \<open>now.setDate(now.getDate() - n)\<close>; \<open>recurseDirSync\<close> lists the files below a directory
  and \<open>statMtime\<close> is the \<open>mtime\<close> that \<open>statSync\<close> reports.
  \<open>relativeToUndefined from\<close> is \<open>path.relative(from, undefined)\<close> and
  \<open>undefinedReference\<close> is what the css-processor puts in the text when its callback
  returns \<open>undefined\<close>; both can throw.
\<close>

record env =
  isHashedFile :: "string \<Rightarrow> bool"
  getHashedFileName :: "string \<Rightarrow> string \<Rightarrow> string \<Rightarrow> string"
  generateForFile :: "(string \<rightharpoonup> string) \<Rightarrow> string \<Rightarrow> bool \<Rightarrow> string + string"
  generate :: "string \<Rightarrow> string"
  ensureUrlSeparators :: "string \<Rightarrow> string"
  path_sep :: string
  path_relative :: "string \<Rightarrow> string \<Rightarrow> string"
  path_resolve :: "string \<Rightarrow> string \<Rightarrow> string"
  path_join :: "string \<Rightarrow> string \<Rightarrow> string"
  path_dirname :: "string \<Rightarrow> string"
  path_extname :: "string \<Rightarrow> string"
  relativeToUndefined :: "string \<Rightarrow> string + string"
  undefinedReference :: "string + string"
  cssTokens :: "string \<Rightarrow> css_token list"
  minimatch :: "string \<Rightarrow> string \<Rightarrow> bool"
  writeError :: "string \<Rightarrow> string option"
  isDirectory :: "string \<Rightarrow> bool"
  serializer_extension :: string
  parse :: "string \<Rightarrow> string + trimmed list"
  serialize :: "trimmed list \<Rightarrow> string"
  recurseDirSync :: "(string \<rightharpoonup> string) \<Rightarrow> string \<Rightarrow> string list"
  statMtime :: "string \<Rightarrow> int"
  subtractDays :: "int \<Rightarrow> int \<Rightarrow> int"

text \<open>The options object \<open>_options\<close>. A plugin's \<open>processFile\<close> returns an object, given
  by its own enumerable properties in order, or throws.\<close>

record options =
  includeFilters :: "string list option"
  excludeFilters :: "string list option"
  manifestPath :: "string option"
  amend :: bool
  continueOnError :: bool
  quickhash :: bool
  processCss :: bool
  plugins :: "(entry \<Rightarrow> string + (string \<times> string) list) list"
  cleanOldDays :: "int option"

section \<open>File system primitives\<close>

definition readFileSync :: "session \<Rightarrow> string \<Rightarrow> string + string" where
  "readFileSync s p =
     (case files s p of
        None \<Rightarrow> Inl (''ENOENT: no such file or directory '' @ p)
      | Some c \<Rightarrow> Inr c)"

definition writeFileSync :: "env \<Rightarrow> string \<Rightarrow> string \<Rightarrow> session \<Rightarrow> string + session" where
  "writeFileSync E p text s =
     (case writeError E p of
        Some m \<Rightarrow> Inl m
      | None \<Rightarrow> Inr (s\<lparr>files := (files s)(p \<mapsto> text), trace := trace s @ [WriteOp p text]\<rparr>))"

definition copySync :: "env \<Rightarrow> string \<Rightarrow> string \<Rightarrow> session \<Rightarrow> string + session" where
  "copySync E src dst s =
     (case files s src of
        None \<Rightarrow> Inl (''ENOENT: no such file or directory '' @ src)
      | Some c \<Rightarrow>
          (case writeError E dst of
             Some m \<Rightarrow> Inl m
           | None \<Rightarrow> Inr (s\<lparr>files := (files s)(dst \<mapsto> c), trace := trace s @ [CopyOp src dst]\<rparr>)))"

definition existsSync :: "env \<Rightarrow> session \<Rightarrow> string \<Rightarrow> bool" where
  "existsSync E s p \<longleftrightarrow> files s p \<noteq> None \<or> isDirectory E p"

definition deleteSync :: "string \<Rightarrow> session \<Rightarrow> session" where
  "deleteSync p s = s\<lparr>files := (files s)(p := None), trace := trace s @ [DeleteOp p]\<rparr>"

section \<open>Options\<close>

text \<open>\<open>processFilter\<close>: no filter gives \<open>null\<close>; otherwise the predicate that some
  pattern matches.\<close>

definition processFilter :: "env \<Rightarrow> string list option \<Rightarrow> (string \<Rightarrow> bool) option" where
  "processFilter E filters =
     (case filters of
        None \<Rightarrow> None
      | Some fs \<Rightarrow> Some (\<lambda>filePath. list_ex (\<lambda>f. minimatch E filePath f) fs))"

text \<open>\<open>_options.shouldBeExcluded\<close>, as \<open>initOptions\<close> defines it.\<close>

definition shouldBeExcluded :: "env \<Rightarrow> options \<Rightarrow> string \<Rightarrow> bool" where
  "shouldBeExcluded E opts filePath =
     (case processFilter E (excludeFilters opts) of
        Some ex \<Rightarrow>
          if ex filePath then True
          else (case processFilter E (includeFilters opts) of
                  Some inc \<Rightarrow> \<not> inc filePath
                | None \<Rightarrow> False)
      | None \<Rightarrow>
          (case processFilter E (includeFilters opts) of
             Some inc \<Rightarrow> \<not> inc filePath
           | None \<Rightarrow> False))"

section \<open>Entry Builder\<close>

text \<open>
  The assignment \<open>target[key] = value\<close> on an entry: one of the properties the code
  itself gives an entry is overwritten, a plugin property already present keeps its
  position and takes the new value, a new property is appended. The assignment to
  \<open>__proto__\<close> of a value that is not an object changes nothing.
\<close>

definition setProperty :: "string \<Rightarrow> string \<Rightarrow> entry \<Rightarrow> entry" where
  "setProperty k v e =
     (if k = ''__proto__'' then e
      else if k = ''path'' then e\<lparr>path := v\<rparr>
      else if k = ''pathPhysical'' then e\<lparr>pathPhysical := v\<rparr>
      else if k = ''hashedPath'' then e\<lparr>hashedPath := v\<rparr>
      else if k = ''hashedPathPhysical'' then e\<lparr>hashedPathPhysical := v\<rparr>
      else if k = ''hashCode'' then e\<lparr>hashCode := Some v\<rparr>
      else if k = ''unverified'' then e\<lparr>unverified := (v \<noteq> [])\<rparr>
      else if k = ''transformedText'' then e\<lparr>transformedText := Some v\<rparr>
      else if k \<in> fst ` set (extra e)
      then e\<lparr>extra := map (\<lambda>(k', v'). if k' = k then (k', v) else (k', v')) (extra e)\<rparr>
      else e\<lparr>extra := extra e @ [(k, v)]\<rparr>)"

text \<open>\<open>util._extend(manifestEntry, pluginData)\<close> copies the properties of the plugin's
  object into the entry, from the last key to the first.\<close>

definition extend :: "entry \<Rightarrow> (string \<times> string) list \<Rightarrow> entry" where
  "extend e pluginData = foldr (\<lambda>(k, v) target. setProperty k v target) pluginData e"

text \<open>The \<open>forEach\<close> over \<open>_options.plugins\<close>; a plugin that throws ends it.\<close>

fun applyPlugins :: "(entry \<Rightarrow> string + (string \<times> string) list) list \<Rightarrow> entry \<Rightarrow> string + entry" where
  "applyPlugins [] e = Inr e"
| "applyPlugins (p # ps) e =
     (case p e of
        Inl ex \<Rightarrow> Inl ex
      | Inr pluginData \<Rightarrow> applyPlugins ps (extend e pluginData))"

text \<open>\<open>hashCode || hashcodeGenerator.generateForFile(fullPath, _options.quickhash)\<close>: an
  absent or empty hash code is falsy.\<close>

definition coalesceHashCode :: "env \<Rightarrow> options \<Rightarrow> session \<Rightarrow> string \<Rightarrow> string option \<Rightarrow> string + string" where
  "coalesceHashCode E opts s fullPath hc =
     (case hc of
        Some h \<Rightarrow> if h \<noteq> [] then Inr h else generateForFile E (files s) fullPath (quickhash opts)
      | None \<Rightarrow> generateForFile E (files s) fullPath (quickhash opts))"

definition createManifestEntry ::
  "env \<Rightarrow> options \<Rightarrow> string \<Rightarrow> string \<Rightarrow> string \<Rightarrow> session \<Rightarrow> string option \<Rightarrow> string + entry" where
  "createManifestEntry E opts fullPath basePath targetBasePath s hc =
     (let relativePath = path_relative E basePath fullPath;
          targetPath = path_resolve E targetBasePath relativePath;
          targetDir = path_dirname E targetPath
      in case coalesceHashCode E opts s fullPath hc of
           Inl ex \<Rightarrow> Inl ex
         | Inr hashCodeCoalesced \<Rightarrow>
             (let hashedPathPhysical' = getHashedFileName E fullPath targetDir hashCodeCoalesced;
                  hashedPath' = path_relative E targetBasePath hashedPathPhysical'
              in applyPlugins (plugins opts)
                   \<lparr>path = ensureUrlSeparators E (path_sep E @ relativePath),
                    pathPhysical = fullPath,
                    hashedPath = ensureUrlSeparators E (path_sep E @ hashedPath'),
                    hashedPathPhysical = hashedPathPhysical',
                    hashCode = Some hashCodeCoalesced,
                    unverified = False,
                    transformedText = None,
                    extra = []\<rparr>))"

section \<open>Reconciliation Coordinator\<close>

text \<open>
  \<open>data.lookupMap\<close> is the object \<open>{}\<close>. The map \<open>lookupMap\<close> of the session holds its
  own properties and, under the key \<open>__proto__\<close>, its prototype when that is an entry:
  the assignment \<open>data.lookupMap["__proto__"] = entry\<close> sets the prototype and creates no
  own property, and the prototype is \<open>Object.prototype\<close> until then. An assignment
  with any other key creates or replaces an own property.

  A read looks for an own property, then for a property of the prototype entry, then
  for a property of \<open>Object.prototype\<close>, whose properties are functions; the key
  \<open>__proto__\<close> reads the prototype itself.
\<close>

definition objectPrototype :: "string list" where
  "objectPrototype =
     [''constructor'', ''__defineGetter__'', ''__defineSetter__'', ''hasOwnProperty'',
      ''__lookupGetter__'', ''__lookupSetter__'', ''isPrototypeOf'', ''propertyIsEnumerable'',
      ''toString'', ''valueOf'', ''toLocaleString'']"

definition entryProperty :: "entry \<Rightarrow> string \<Rightarrow> string option" where
  "entryProperty e k =
     (if k = ''path'' then Some (path e)
      else if k = ''pathPhysical'' then Some (pathPhysical e)
      else if k = ''hashedPath'' then Some (hashedPath e)
      else if k = ''hashedPathPhysical'' then Some (hashedPathPhysical e)
      else if k = ''hashCode'' then hashCode e
      else if k = ''unverified'' then (if unverified e then Some ''true'' else None)
      else if k = ''transformedText'' then transformedText e
      else map_of (extra e) k)"

definition getProperty :: "session \<Rightarrow> string \<Rightarrow> jsvalue" where
  "getProperty s key =
     (case lookupMap s key of
        Some r \<Rightarrow> Object r
      | None \<Rightarrow>
          if key = ''__proto__'' then Truthy
          else
            (case (case lookupMap s ''__proto__'' of
                     Some r \<Rightarrow> entryProperty (store s ! r) key
                   | None \<Rightarrow> None) of
               Some v \<Rightarrow> if v \<noteq> [] then Truthy else Falsy
             | None \<Rightarrow> if key \<in> set objectPrototype then Truthy else Falsy))"

text \<open>Lines 142--158 of \<open>processEntry\<close>: write the transformed text (when it is truthy,
  that is present and not empty) or copy the original file, then push the entry on
  \<open>data.manifest\<close> and register it in \<open>data.lookupMap\<close>. An I/O error leaves the session
  as it was.\<close>

definition materialize :: "env \<Rightarrow> string \<Rightarrow> entry \<Rightarrow> session \<Rightarrow> (string + jsvalue) \<times> session" where
  "materialize E fullPath e s =
     (case (case transformedText e of
              Some t \<Rightarrow>
                if t \<noteq> [] then
                  (case writeFileSync E (hashedPathPhysical e) t s of
                     Inl ex \<Rightarrow> Inl ex
                   | Inr s1 \<Rightarrow> Inr (e\<lparr>transformedText := None\<rparr>, s1))
                else
                  (case copySync E (pathPhysical e) (hashedPathPhysical e) s of
                     Inl ex \<Rightarrow> Inl ex
                   | Inr s1 \<Rightarrow> Inr (e, s1))
            | None \<Rightarrow>
                (case copySync E (pathPhysical e) (hashedPathPhysical e) s of
                   Inl ex \<Rightarrow> Inl ex
                 | Inr s1 \<Rightarrow> Inr (e, s1))) of
        Inl ex \<Rightarrow> (Inl ex, s)
      | Inr (e1, s1) \<Rightarrow>
          (let r = length (store s1)
           in (Inr (Object r),
               s1\<lparr>store := store s1 @ [e1],
                  manifest := manifest s1 @ [r],
                  lookupMap := (lookupMap s1)(fullPath \<mapsto> r)\<rparr>)))"

text \<open>Lines 134--158: the comparison of the fresh entry with an unverified existing one,
  which confirms the existing entry (\<open>delete existingEntry.unverified\<close>) or falls through
  to the copy.\<close>

definition finishEntry ::
  "env \<Rightarrow> string \<Rightarrow> jsvalue \<Rightarrow> entry \<Rightarrow> session \<Rightarrow> (string + jsvalue) \<times> session" where
  "finishEntry E fullPath existingEntry e s =
     (case existingEntry of
        Object r \<Rightarrow>
          if unverified (store s ! r) \<and> hashedPath e = hashedPath (store s ! r)
          then (Inr (Object r), s\<lparr>store := (store s)[r := (store s ! r)\<lparr>unverified := False\<rparr>]\<rparr>)
          else materialize E fullPath e s
      | Falsy \<Rightarrow> materialize E fullPath e s
      | Truthy \<Rightarrow> materialize E fullPath e s)"

text \<open>The \<open>catch\<close> block, lines 159--174.\<close>

definition catchHandler :: "options \<Rightarrow> string \<Rightarrow> string \<Rightarrow> session \<Rightarrow> (string + jsvalue) \<times> session" where
  "catchHandler opts fullPath ex s =
     (if \<not> continueOnError opts then (Inl ex, s)
      else (Inr Falsy, s\<lparr>errors := errors s @ [''ERROR: '' @ fullPath @ '': '' @ ex]\<rparr>))"

definition notInBaseDir :: "string \<Rightarrow> string \<Rightarrow> string" where
  "notInBaseDir fullPath baseDir =
     ''The file '' @ [CHR 0x27] @ fullPath @ [CHR 0x27] @ '' is not in the base directory: ''
       @ [CHR 0x27] @ baseDir @ [CHR 0x27]"

text \<open>\<open>existingEntry && !existingEntry.unverified\<close>\<close>

definition verifiedEntry :: "session \<Rightarrow> jsvalue \<Rightarrow> bool" where
  "verifiedEntry s existingEntry =
     (case existingEntry of
        Object r \<Rightarrow> \<not> unverified (store s ! r)
      | Truthy \<Rightarrow> True
      | Falsy \<Rightarrow> False)"

definition isCss :: "env \<Rightarrow> options \<Rightarrow> string \<Rightarrow> bool" where
  "isCss E opts fullPath \<longleftrightarrow> processCss opts \<and> path_extname E fullPath = ''.css''"

text \<open>The first lines of \<open>processImagePath\<close>: a reference that begins with \<open>/\<close> is
  joined to the base path, any other is resolved against the directory of the
  stylesheet.\<close>

definition isRootRelative :: "string \<Rightarrow> bool" where
  "isRootRelative virtualPath = (case virtualPath of [] \<Rightarrow> False | c # cs \<Rightarrow> c = CHR ''/'')"

definition resolveReference :: "env \<Rightarrow> string \<Rightarrow> string \<Rightarrow> string \<Rightarrow> string" where
  "resolveReference E fullPath basePath virtualPath =
     (if isRootRelative virtualPath then path_join E basePath virtualPath
      else path_resolve E (path_dirname E fullPath) virtualPath)"

text \<open>
  \<open>processEntry\<close>, \<open>createManifestEntryCss\<close> and its callback \<open>processImagePath\<close> call each
  other. The natural number bounds the nesting of stylesheets: \<open>None\<close> is a recursion
  that did not end within it. A result is the value returned or the message of the
  exception thrown (\<open>Inl\<close>), with the session as the call left it.

  Modelled from the spec: \<open>cssProcessor.processCss\<close> (lib/css-processor.js), which scans
  the text for the embedded references and substitutes what the callback returns for
  each, in order. The scanning is the parameter \<open>cssTokens\<close>.
\<close>

function (sequential) processEntry ::
    "env \<Rightarrow> options \<Rightarrow> nat \<Rightarrow> string \<Rightarrow> string \<Rightarrow> string \<Rightarrow> session \<Rightarrow>
       ((string + jsvalue) \<times> session) option"
  and createManifestEntryCss ::
    "env \<Rightarrow> options \<Rightarrow> nat \<Rightarrow> string \<Rightarrow> string \<Rightarrow> string \<Rightarrow> session \<Rightarrow>
       ((string + entry) \<times> session) option"
  and cssProcessor_processCss ::
    "env \<Rightarrow> options \<Rightarrow> nat \<Rightarrow> string \<Rightarrow> string \<Rightarrow> string \<Rightarrow> css_token list \<Rightarrow> session \<Rightarrow>
       ((string + string) \<times> session) option"
  and processImagePath ::
    "env \<Rightarrow> options \<Rightarrow> nat \<Rightarrow> string \<Rightarrow> string \<Rightarrow> string \<Rightarrow> string \<Rightarrow> session \<Rightarrow>
       ((string + string) \<times> session) option"
where
  "processEntry E opts n fullPath baseDir targetDir s =
     (if verifiedEntry s (getProperty s fullPath) then Some (Inr (getProperty s fullPath), s)
      else if \<not> prefix baseDir fullPath then Some (Inl (notInBaseDir fullPath baseDir), s)
      else if isHashedFile E fullPath then Some (Inr Falsy, s)
      else if shouldBeExcluded E opts fullPath then Some (Inr Falsy, s)
      else
        (case (if isCss E opts fullPath
               then createManifestEntryCss E opts n fullPath baseDir targetDir s
               else Some (createManifestEntry E opts fullPath baseDir targetDir s None, s)) of
           None \<Rightarrow> None
         | Some (Inl ex, s1) \<Rightarrow> Some (catchHandler opts fullPath ex s1)
         | Some (Inr e, s1) \<Rightarrow>
             (case finishEntry E fullPath (getProperty s fullPath) e s1 of
                (Inl ex, s2) \<Rightarrow> Some (catchHandler opts fullPath ex s2)
              | (Inr r, s2) \<Rightarrow> Some (Inr r, s2))))"
| "createManifestEntryCss E opts 0 fullPath basePath targetDir s = None"
| "createManifestEntryCss E opts (Suc n) fullPath basePath targetDir s =
     (case readFileSync s fullPath of
        Inl ex \<Rightarrow> Some (Inl ex, s)
      | Inr contents \<Rightarrow>
          (case cssProcessor_processCss E opts n fullPath basePath targetDir (cssTokens E contents) s of
             None \<Rightarrow> None
           | Some (Inl ex, s1) \<Rightarrow> Some (Inl ex, s1)
           | Some (Inr transformedCssText, s1) \<Rightarrow>
               (case createManifestEntry E opts fullPath basePath targetDir s1
                       (Some (generate E transformedCssText)) of
                  Inl ex \<Rightarrow> Some (Inl ex, s1)
                | Inr e \<Rightarrow> Some (Inr (e\<lparr>transformedText := Some transformedCssText\<rparr>), s1))))"
| "cssProcessor_processCss E opts n fullPath basePath targetDir [] s = Some (Inr [], s)"
| "cssProcessor_processCss E opts n fullPath basePath targetDir (Text t # ts) s =
     (case cssProcessor_processCss E opts n fullPath basePath targetDir ts s of
        None \<Rightarrow> None
      | Some (Inl ex, s1) \<Rightarrow> Some (Inl ex, s1)
      | Some (Inr out, s1) \<Rightarrow> Some (Inr (t @ out), s1))"
| "cssProcessor_processCss E opts n fullPath basePath targetDir (Url u # ts) s =
     (case processImagePath E opts n fullPath basePath targetDir u s of
        None \<Rightarrow> None
      | Some (Inl ex, s1) \<Rightarrow> Some (Inl ex, s1)
      | Some (Inr u', s1) \<Rightarrow>
          (case cssProcessor_processCss E opts n fullPath basePath targetDir ts s1 of
             None \<Rightarrow> None
           | Some (Inl ex, s2) \<Rightarrow> Some (Inl ex, s2)
           | Some (Inr out, s2) \<Rightarrow> Some (Inr (u' @ out), s2)))"
| "processImagePath E opts n fullPath basePath targetDir virtualPath s =
     (case processEntry E opts n (resolveReference E fullPath basePath virtualPath)
             basePath targetDir s of
        None \<Rightarrow> None
      | Some (Inl ex, s1) \<Rightarrow> Some (Inl ex, s1)
      | Some (Inr Falsy, s1) \<Rightarrow> Some (Inr virtualPath, s1)
      | Some (Inr (Object r), s1) \<Rightarrow>
          Some (Inr (if \<not> isRootRelative virtualPath
                     then path_relative E (path_dirname E fullPath)
                            (hashedPathPhysical (store s1 ! r))
                     else hashedPath (store s1 ! r)), s1)
      | Some (Inr Truthy, s1) \<Rightarrow>
          (case (if \<not> isRootRelative virtualPath
                 then relativeToUndefined E (path_dirname E fullPath)
                 else undefinedReference E) of
             Inl ex \<Rightarrow> Some (Inl ex, s1)
           | Inr u \<Rightarrow> Some (Inr u, s1)))"
  by pat_completeness auto

termination
  by (relation "measures
        [\<lambda>x. case x of
               Inl (Inl (E, opts, n, r)) \<Rightarrow> n
             | Inl (Inr (E, opts, n, r)) \<Rightarrow> n
             | Inr (Inl (E, opts, n, r)) \<Rightarrow> n
             | Inr (Inr (E, opts, n, r)) \<Rightarrow> n,
         \<lambda>x. case x of
               Inl (Inl a) \<Rightarrow> 1
             | Inl (Inr a) \<Rightarrow> 0
             | Inr (Inl (E, opts, n, fullPath, basePath, targetDir, ts, s)) \<Rightarrow> 3 + length ts
             | Inr (Inr a) \<Rightarrow> 2]")
     auto

declare processEntry.simps [simp del] processImagePath.simps [simp del]

text \<open>The body of the \<open>try\<close> statement of \<open>processEntry\<close> (lines 128--158), for a
  path that passed the checks before it: the entry is built by the method chosen at line
  125, then confirmed or materialized.\<close>

definition buildEntry ::
  "env \<Rightarrow> options \<Rightarrow> nat \<Rightarrow> string \<Rightarrow> string \<Rightarrow> string \<Rightarrow> session \<Rightarrow>
     ((string + entry) \<times> session) option" where
  "buildEntry E opts n fullPath baseDir targetDir s =
     (if isCss E opts fullPath
      then createManifestEntryCss E opts n fullPath baseDir targetDir s
      else Some (createManifestEntry E opts fullPath baseDir targetDir s None, s))"

definition tryBlock ::
  "env \<Rightarrow> options \<Rightarrow> nat \<Rightarrow> string \<Rightarrow> string \<Rightarrow> string \<Rightarrow> session \<Rightarrow>
     ((string + jsvalue) \<times> session) option" where
  "tryBlock E opts n fullPath baseDir targetDir s =
     (case buildEntry E opts n fullPath baseDir targetDir s of
        None \<Rightarrow> None
      | Some (Inl ex, s1) \<Rightarrow> Some (Inl ex, s1)
      | Some (Inr e, s1) \<Rightarrow> Some (finishEntry E fullPath (getProperty s fullPath) e s1))"

text \<open>The \<open>files.forEach\<close> of \<open>createManifest\<close>: an exception ends the loop.\<close>

fun processAll ::
  "env \<Rightarrow> options \<Rightarrow> nat \<Rightarrow> string list \<Rightarrow> string \<Rightarrow> string \<Rightarrow> session \<Rightarrow>
     ((string + unit) \<times> session) option" where
  "processAll E opts n [] baseDir targetDir s = Some (Inr (), s)"
| "processAll E opts n (fullPath # rest) baseDir targetDir s =
     (case processEntry E opts n fullPath baseDir targetDir s of
        None \<Rightarrow> None
      | Some (Inl ex, s1) \<Rightarrow> Some (Inl ex, s1)
      | Some (Inr r, s1) \<Rightarrow> processAll E opts n rest baseDir targetDir s1)"

text \<open>The seeding of \<open>createManifest\<close>: every existing entry is marked unverified and
  indexed by its physical path (a later entry with the same path replaces an earlier
  one), and the existing array becomes \<open>data.manifest\<close>.\<close>

fun seedLookup :: "ref \<Rightarrow> entry list \<Rightarrow> (string \<rightharpoonup> ref) \<Rightarrow> (string \<rightharpoonup> ref)" where
  "seedLookup i [] m = m"
| "seedLookup i (e # es) m = seedLookup (Suc i) es (m(pathPhysical e \<mapsto> i))"

definition seedSession :: "entry list option \<Rightarrow> (string \<rightharpoonup> string) \<Rightarrow> fs_op list \<Rightarrow> session" where
  "seedSession existingManifestData fs tr =
     (case existingManifestData of
        None \<Rightarrow>
          \<lparr>manifest = [], errors = [], lookupMap = Map.empty, store = [], files = fs, trace = tr\<rparr>
      | Some es \<Rightarrow>
          \<lparr>manifest = [0..<length es], errors = [], lookupMap = seedLookup 0 es Map.empty,
           store = map (\<lambda>e. e\<lparr>unverified := True\<rparr>) es, files = fs, trace = tr\<rparr>)"


section \<open>The public operations\<close>

definition getManifestPath :: "env \<Rightarrow> options \<Rightarrow> string \<Rightarrow> string" where
  "getManifestPath E opts directory =
     (case manifestPath opts of
        Some p \<Rightarrow> if p \<noteq> [] then p else path_join E directory (''manifest'' @ serializer_extension E)
      | None \<Rightarrow> path_join E directory (''manifest'' @ serializer_extension E))"

text \<open>The trimming of \<open>processFiles\<close> deletes \<open>pathPhysical\<close>, \<open>hashedPathPhysical\<close>,
  \<open>unverified\<close> and \<open>hashCode\<close>.\<close>

definition trim :: "entry \<Rightarrow> trimmed" where
  "trim e = \<lparr>tpath = path e, thashedPath = hashedPath e,
             ttransformedText = transformedText e, textra = extra e\<rparr>"


text \<open>The entries parsed from an existing manifest, with the physical paths that
  \<open>processFiles\<close> reconstructs by concatenation.\<close>

definition existingEntry :: "string \<Rightarrow> string \<Rightarrow> trimmed \<Rightarrow> entry" where
  "existingEntry baseDir targetDir t =
     \<lparr>path = tpath t, pathPhysical = baseDir @ tpath t, hashedPath = thashedPath t,
      hashedPathPhysical = targetDir @ thashedPath t, hashCode = None, unverified = False,
      transformedText = ttransformedText t, extra = textra t\<rparr>"




text \<open>\<open>cleanOld\<close>: the set of the hashed paths the manifest references, then the walk
  over the directory.\<close>

fun cleanOldWalk :: "env \<Rightarrow> options \<Rightarrow> string list \<Rightarrow> int \<Rightarrow> string list \<Rightarrow> session \<Rightarrow> session" where
  "cleanOldWalk E opts fileSet oldestAllowed [] s = s"
| "cleanOldWalk E opts fileSet oldestAllowed (filePath # rest) s =
     cleanOldWalk E opts fileSet oldestAllowed rest
       (if isHashedFile E filePath then
          (if filePath \<in> set fileSet then s
           else if (case cleanOldDays opts of Some d \<Rightarrow> d > 0 | None \<Rightarrow> False)
                   \<and> statMtime E filePath \<ge> oldestAllowed then s
           else deleteSync filePath s)
        else s)"

text \<open>\<open>fileSet\<close>: the keys \<open>directory + entry.hashedPath\<close> of the manifest's entries.\<close>

definition referencedPaths :: "env \<Rightarrow> options \<Rightarrow> string \<Rightarrow> session \<Rightarrow> string + string list" where
  "referencedPaths E opts directory s =
     (if existsSync E s (getManifestPath E opts directory)
      then (case readFileSync s (getManifestPath E opts directory) of
              Inl ex \<Rightarrow> Inl ex
            | Inr contents \<Rightarrow>
                (case parse E contents of
                   Inl ex \<Rightarrow> Inl ex
                 | Inr entries \<Rightarrow> Inr (map (\<lambda>e. directory @ thashedPath e) entries)))
      else Inr [])"

definition cleanOld :: "env \<Rightarrow> options \<Rightarrow> string \<Rightarrow> int \<Rightarrow> session \<Rightarrow> string + session" where
  "cleanOld E opts directory now s =
     (case referencedPaths E opts directory s of
        Inl ex \<Rightarrow> Inl ex
      | Inr fileSet \<Rightarrow>
          Inr (cleanOldWalk E opts fileSet
                 (subtractDays E now (case cleanOldDays opts of Some d \<Rightarrow> d | None \<Rightarrow> 0))
                 (recurseDirSync E (files s) directory) s))"

section \<open>Invariants of a reconciliation session\<close>

definition sessionGrows :: "session \<Rightarrow> session \<Rightarrow> bool" where
  "sessionGrows s s' \<longleftrightarrow>
     prefix (manifest s) (manifest s') \<and> prefix (errors s) (errors s') \<and>
     prefix (trace s) (trace s') \<and> length (store s) \<le> length (store s') \<and>
     (\<forall>r < length (store s).
        store s' ! r = store s ! r \<or> store s' ! r = (store s ! r)\<lparr>unverified := False\<rparr>) \<and>
     (\<forall>p r. lookupMap s' p = Some r \<longrightarrow> lookupMap s p = Some r \<or> length (store s) \<le> r)"

definition eligible :: "env \<Rightarrow> options \<Rightarrow> string \<Rightarrow> string \<Rightarrow> bool" where
  "eligible E opts baseDir p \<longleftrightarrow>
     prefix baseDir p \<and> \<not> isHashedFile E p \<and> \<not> shouldBeExcluded E opts p"

definition sessionInv :: "env \<Rightarrow> options \<Rightarrow> string \<Rightarrow> session \<Rightarrow> bool" where
  "sessionInv E opts baseDir s \<longleftrightarrow>
     (\<forall>p r. lookupMap s p = Some r \<longrightarrow> r < length (store s)) \<and>
     (\<forall>p p' r. lookupMap s p = Some r \<longrightarrow> lookupMap s p' = Some r \<longrightarrow> p = p') \<and>
     (\<forall>r \<in> set (manifest s). r < length (store s)) \<and>
     (\<forall>p r. lookupMap s p = Some r \<longrightarrow> \<not> unverified (store s ! r) \<longrightarrow> eligible E opts baseDir p)"

definition stepClosed :: "(session \<Rightarrow> session \<Rightarrow> bool) \<Rightarrow> env \<Rightarrow> options \<Rightarrow> string \<Rightarrow> bool" where
  "stepClosed Q E opts b \<longleftrightarrow>
     (\<forall>s. Q s s) \<and> (\<forall>s1 s2 s3. Q s1 s2 \<longrightarrow> Q s2 s3 \<longrightarrow> Q s1 s3) \<and>
     (\<forall>fullPath s sb e rf sf n t.
          \<not> verifiedEntry s (getProperty s fullPath) \<longrightarrow> eligible E opts b fullPath \<longrightarrow> Q s sb \<longrightarrow>
          buildEntry E opts n fullPath b t s = Some (Inr e, sb) \<longrightarrow>
          finishEntry E fullPath (getProperty s fullPath) e sb = (rf, sf) \<longrightarrow> Q s sf) \<and>
     (\<forall>fullPath ex s r s'. catchHandler opts fullPath ex s = (r, s') \<longrightarrow> Q s s')"

















section \<open>A concrete environment\<close>

text \<open>
  An instance of the parameters, used to run the model on concrete inputs: POSIX paths as
  Node's \<open>path\<close> module computes them on absolute paths, the naming convention
  \<open>name-hc<hash>.ext\<close> of the hashed files, a tokenizer that takes what stands between
  parentheses for a reference, a digest that is the letter \<open>d\<close> followed by the letters and digits of the
  content,
  and a manifest format with one line \<open>path hashedPath\<close> per entry.
\<close>

fun hasHashMarker :: "string \<Rightarrow> bool" where
  "hasHashMarker (a # b # c # rest) =
     ((a = CHR ''-'' \<and> b = CHR ''h'' \<and> c = CHR ''c'') \<or> hasHashMarker (b # c # rest))"
| "hasHashMarker p = False"

fun splitOn :: "char \<Rightarrow> string \<Rightarrow> string \<Rightarrow> string list" where
  "splitOn sep acc [] = [rev acc]"
| "splitOn sep acc (c # cs) =
     (if c = sep then rev acc # splitOn sep [] cs else splitOn sep (c # acc) cs)"

definition components :: "string \<Rightarrow> string list" where
  "components p = filter (\<lambda>x. x \<noteq> []) (splitOn (CHR ''/'') [] p)"

fun joinSlash :: "string list \<Rightarrow> string" where
  "joinSlash [] = []"
| "joinSlash [x] = x"
| "joinSlash (x # y # ys) = x @ ''/'' @ joinSlash (y # ys)"

fun normalize :: "string list \<Rightarrow> string list \<Rightarrow> string list" where
  "normalize acc [] = rev acc"
| "normalize acc (c # cs) =
     (if c = ''..'' then normalize (tl acc) cs
      else if c = ''.'' then normalize acc cs
      else normalize (c # acc) cs)"

fun dropCommon :: "string list \<Rightarrow> string list \<Rightarrow> string list \<times> string list" where
  "dropCommon (x # xs) (y # ys) = (if x = y then dropCommon xs ys else (x # xs, y # ys))"
| "dropCommon xs ys = (xs, ys)"

definition relativeTo :: "string \<Rightarrow> string \<Rightarrow> string" where
  "relativeTo base p =
     (case dropCommon (normalize [] (components base)) (normalize [] (components p)) of
        (bs, ps) \<Rightarrow> joinSlash (map (\<lambda>b. ''..'') bs @ ps))"

definition joinPaths :: "string \<Rightarrow> string \<Rightarrow> string" where
  "joinPaths a b =
     (if isRootRelative (a @ ''/'' @ b) then ''/'' else [])
       @ joinSlash (normalize [] (components (a @ ''/'' @ b)))"

definition resolveIn :: "string \<Rightarrow> string \<Rightarrow> string" where
  "resolveIn d p = (if isRootRelative p then joinPaths p [] else joinPaths d p)"

definition basename :: "string \<Rightarrow> string" where
  "basename p = rev (takeWhile (\<lambda>c. c \<noteq> CHR ''/'') (rev p))"

definition dirname :: "string \<Rightarrow> string" where
  "dirname p =
     (let d = rev (drop 1 (dropWhile (\<lambda>c. c \<noteq> CHR ''/'') (rev p)))
      in if d = [] then (if isRootRelative p then ''/'' else ''.'') else d)"

definition extname :: "string \<Rightarrow> string" where
  "extname p =
     (if CHR ''.'' \<in> set (drop 1 (basename p))
      then CHR ''.'' # rev (takeWhile (\<lambda>c. c \<noteq> CHR ''.'') (rev (basename p)))
      else [])"

definition hashedFileName :: "string \<Rightarrow> string \<Rightarrow> string \<Rightarrow> string" where
  "hashedFileName fullPath targetDir hc =
     joinPaths targetDir
       (take (length (basename fullPath) - length (extname fullPath)) (basename fullPath)
        @ ''-hc'' @ hc @ extname fullPath)"

definition digest :: "string \<Rightarrow> string" where
  "digest c = CHR ''d'' # filter (\<lambda>ch. ch \<notin> set ''/.-():; '') c"

fun scanCss :: "bool \<Rightarrow> string \<Rightarrow> string \<Rightarrow> css_token list" where
  "scanCss inUrl acc [] = [if inUrl then Url (rev acc) else Text (rev acc)]"
| "scanCss False acc (c # cs) =
     (if c = CHR ''('' then Text (rev (c # acc)) # scanCss True [] cs
      else scanCss False (c # acc) cs)"
| "scanCss True acc (c # cs) =
     (if c = CHR '')'' then Url (rev acc) # scanCss False [c] cs
      else scanCss True (c # acc) cs)"

definition serializeLines :: "trimmed list \<Rightarrow> string" where
  "serializeLines ts = concat (map (\<lambda>t. tpath t @ '' '' @ thashedPath t @ [CHR 0x0A]) ts)"

definition parseLines :: "string \<Rightarrow> string + trimmed list" where
  "parseLines contents =
     Inr (map (\<lambda>l. \<lparr>tpath = takeWhile (\<lambda>c. c \<noteq> CHR '' '') l,
                     thashedPath = drop 1 (dropWhile (\<lambda>c. c \<noteq> CHR '' '') l),
                     ttransformedText = None, textra = []\<rparr>)
            (filter (\<lambda>l. l \<noteq> []) (splitOn (CHR 0x0A) [] contents)))"

text \<open>The environment, given the paths that cannot be written, the paths a directory
  walk may find, and the modification times.\<close>

definition posixEnv :: "(string \<Rightarrow> string option) \<Rightarrow> string list \<Rightarrow> (string \<Rightarrow> int) \<Rightarrow> env" where
  "posixEnv wr listing mt =
     \<lparr>isHashedFile = hasHashMarker,
      getHashedFileName = hashedFileName,
      generateForFile = (\<lambda>fs p quick.
         case fs p of None \<Rightarrow> Inl (''ENOENT: no such file or directory '' @ p)
                    | Some c \<Rightarrow> Inr (digest c)),
      generate = digest,
      ensureUrlSeparators = (\<lambda>p. p),
      path_sep = ''/'',
      path_relative = relativeTo,
      path_resolve = resolveIn,
      path_join = joinPaths,
      path_dirname = dirname,
      path_extname = extname,
      relativeToUndefined = (\<lambda>from. Inl ''The to argument must be of type string. Received undefined''),
      undefinedReference = Inr ''undefined'',
      cssTokens = scanCss False [],
      minimatch = (\<lambda>p pat. p = pat),
      writeError = wr,
      isDirectory = (\<lambda>p. p \<in> set [''/src'', ''/src/'', ''/dist'', ''/dist/'']),
      serializer_extension = ''.txt'',
      parse = parseLines,
      serialize = serializeLines,
      recurseDirSync = (\<lambda>fs d. filter (\<lambda>p. fs p \<noteq> None \<and> prefix d p) listing),
      statMtime = mt,
      subtractDays = (\<lambda>now d. now - d * 86400000)\<rparr>"

definition plainOptions :: options where
  "plainOptions =
     \<lparr>includeFilters = None, excludeFilters = None, manifestPath = None, amend = False,
      continueOnError = False, quickhash = False, processCss = False, plugins = [],
      cleanOldDays = None\<rparr>"

text \<open>The example of the specification: \<open>a.txt\<close>, \<open>style.css\<close> and \<open>img.png\<close> under
  \<open>/src\<close>.\<close>

definition srcTree :: "string \<rightharpoonup> string" where
  "srcTree = [''/src/a.txt'' \<mapsto> ''hello'', ''/src/style.css'' \<mapsto> ''background: url(img.png)'',
              ''/src/img.png'' \<mapsto> ''X'']"

definition posix :: env where
  "posix = posixEnv (\<lambda>p. None) [] (\<lambda>p. 0)"

text \<open>Previous manifests for the example: one that records the current hashed path of
  \<open>a.txt\<close>, and one that records the stylesheet only.\<close>

definition manifestEntry :: "string \<Rightarrow> string \<Rightarrow> trimmed" where
  "manifestEntry p h = \<lparr>tpath = p, thashedPath = h, ttransformedText = None, textra = []\<rparr>"

definition currentManifest :: "entry list" where
  "currentManifest = [existingEntry ''/src'' ''/dist'' (manifestEntry ''/a.txt'' ''/a-hcdhello.txt'')]"

definition stylesheetManifest :: "entry list" where
  "stylesheetManifest =
     [existingEntry ''/src'' ''/dist''
        (manifestEntry ''/style.css'' ''/style-hcdbackgroundurldistimghcdXpng.css'')]"

text \<open>A target directory for the stale-clean operation: the manifest references
  \<open>a-hcdhello.txt\<close>; \<open>old-hcd1.txt\<close> and \<open>new-hcd2.txt\<close> are hashed files it does not
  reference, \<open>readme.txt\<close> is not a hashed file. Times are in milliseconds.\<close>

definition distTree :: "string \<rightharpoonup> string" where
  "distTree = [''/dist/manifest.txt'' \<mapsto> ''/a.txt /a-hcdhello.txt'' @ [CHR 0x0A],
               ''/dist/a-hcdhello.txt'' \<mapsto> ''hello'', ''/dist/old-hcd1.txt'' \<mapsto> ''1'',
               ''/dist/new-hcd2.txt'' \<mapsto> ''2'', ''/dist/readme.txt'' \<mapsto> ''r'']"

definition distEnv :: env where
  "distEnv = posixEnv (\<lambda>p. None)
     [''/dist/manifest.txt'', ''/dist/a-hcdhello.txt'', ''/dist/old-hcd1.txt'',
      ''/dist/new-hcd2.txt'', ''/dist/readme.txt'']
     (\<lambda>p. if p = ''/dist/new-hcd2.txt'' then 1000000000000 else 0)"

definition distSession :: session where
  "distSession = \<lparr>manifest = [], errors = [], lookupMap = Map.empty, store = [],
                    files = distTree, trace = []\<rparr>"

text \<open>An environment in which the hashed copy of \<open>img.png\<close> cannot be written, and a
  source tree whose stylesheet refers to a file outside the base directory.\<close>

definition readOnlyImage :: env where
  "readOnlyImage =
     posixEnv (\<lambda>p. if p = ''/dist/img-hcdX.png'' then Some ''EACCES: permission denied'' else None)
       [] (\<lambda>p. 0)"

definition escapingTree :: "string \<rightharpoonup> string" where
  "escapingTree = [''/src/style.css'' \<mapsto> ''background: url(../other/img.png)'',
                   ''/other/img.png'' \<mapsto> ''X'']"











definition cssOptions :: options where
  "cssOptions = plainOptions\<lparr>processCss := True, continueOnError := True\<rparr>"

definition freshSession :: session where
  "freshSession = seedSession None srcTree []"



section \<open>Properties of the session along a run\<close>

lemma getProperty_Object: "getProperty s p = Object r \<longleftrightarrow> lookupMap s p = Some r"
  by (auto simp: getProperty_def split: option.splits jsvalue.splits if_splits)

lemma getProperty_own: "lookupMap s p = Some r \<Longrightarrow> getProperty s p = Object r"
  by (simp add: getProperty_def)

lemma verifiedEntry_cases:
  "verifiedEntry s (getProperty s p) \<longleftrightarrow>
     getProperty s p = Truthy \<or> (\<exists>r. lookupMap s p = Some r \<and> \<not> unverified (store s ! r))"
  by (cases "getProperty s p") (auto simp: verifiedEntry_def getProperty_Object[symmetric])

lemma not_verified_cases:
  assumes "\<not> verifiedEntry s (getProperty s p)"
  obtains (absent) "getProperty s p = Falsy" "lookupMap s p = None"
    | (unverified) r where "getProperty s p = Object r" "lookupMap s p = Some r" "unverified (store s ! r)"
proof (cases "getProperty s p")
  case Falsy
  moreover have "lookupMap s p = None"
    using Falsy by (cases "lookupMap s p") (auto simp: getProperty_def)
  ultimately show ?thesis by (rule absent)
next
  case (Object r)
  then have "lookupMap s p = Some r" by (simp add: getProperty_Object)
  moreover have "unverified (store s ! r)" using assms Object by (simp add: verifiedEntry_def)
  ultimately show ?thesis using Object by (intro unverified)
next
  case Truthy
  then show ?thesis using assms by (simp add: verifiedEntry_def)
qed

lemma sessionGrows_refl: "sessionGrows s s"
  by (simp add: sessionGrows_def)

lemma sessionGrows_trans:
  assumes "sessionGrows s s1" "sessionGrows s1 s2"
  shows "sessionGrows s s2"
  unfolding sessionGrows_def
proof (intro conjI allI impI)
  show "prefix (manifest s) (manifest s2)" using assms by (auto simp: sessionGrows_def)
  show "prefix (errors s) (errors s2)" using assms by (auto simp: sessionGrows_def)
  show "prefix (trace s) (trace s2)" using assms by (auto simp: sessionGrows_def)
  show "length (store s) \<le> length (store s2)" using assms by (auto simp: sessionGrows_def)
next
  fix r assume r: "r < length (store s)"
  then have r1: "r < length (store s1)" using assms(1) by (auto simp: sessionGrows_def)
  have a: "store s1 ! r = store s ! r \<or> store s1 ! r = (store s ! r)\<lparr>unverified := False\<rparr>"
    using assms(1) r by (auto simp: sessionGrows_def)
  have b: "store s2 ! r = store s1 ! r \<or> store s2 ! r = (store s1 ! r)\<lparr>unverified := False\<rparr>"
    using assms(2) r1 by (auto simp: sessionGrows_def)
  show "store s2 ! r = store s ! r \<or> store s2 ! r = (store s ! r)\<lparr>unverified := False\<rparr>"
    using a b by auto
next
  fix p r assume "lookupMap s2 p = Some r"
  then have "lookupMap s1 p = Some r \<or> length (store s1) \<le> r"
    using assms(2) by (auto simp: sessionGrows_def)
  moreover have "length (store s) \<le> length (store s1)" using assms(1) by (auto simp: sessionGrows_def)
  ultimately show "lookupMap s p = Some r \<or> length (store s) \<le> r"
    using assms(1) by (auto simp: sessionGrows_def)
qed

lemma materialize_grows: "materialize E p e s = (r, s') \<Longrightarrow> sessionGrows s s'"
  by (auto simp: materialize_def sessionGrows_def writeFileSync_def copySync_def Let_def nth_append
           split: option.splits jsvalue.splits sum.splits if_splits prod.splits)

lemma confirm_grows:
  "sessionGrows s (s\<lparr>store := (store s)[r := (store s ! r)\<lparr>unverified := False\<rparr>]\<rparr>)"
  by (cases "r < length (store s)") (auto simp: sessionGrows_def nth_list_update)

lemma finishEntry_grows: "finishEntry E p x e s = (r, s') \<Longrightarrow> sessionGrows s s'"
  unfolding finishEntry_def
  by (auto split: jsvalue.splits if_splits intro: confirm_grows materialize_grows)

lemma catchHandler_grows: "catchHandler opts p ex s = (r, s') \<Longrightarrow> sessionGrows s s'"
  by (auto simp: catchHandler_def sessionGrows_def split: if_splits)

lemma materialize_inv:
  assumes "materialize E p e s = (r, s')" "sessionInv E opts b s" "eligible E opts b p"
  shows "sessionInv E opts b s'"
proof (cases r)
  case (Inl ex)
  then have "s' = s" using assms(1)
    by (auto simp: materialize_def Let_def split: option.splits jsvalue.splits sum.splits if_splits prod.splits)
  then show ?thesis using assms(2) by simp
next
  case (Inr x)
  then obtain e1 s1 where s': "s' = s1\<lparr>store := store s1 @ [e1], manifest := manifest s1 @ [length (store s1)],
                  lookupMap := (lookupMap s1)(p \<mapsto> length (store s1))\<rparr>"
      and s1: "store s1 = store s" "lookupMap s1 = lookupMap s" "manifest s1 = manifest s"
    using assms(1)
    by (auto simp: materialize_def Let_def writeFileSync_def copySync_def
             split: option.splits jsvalue.splits sum.splits if_splits prod.splits)
  show ?thesis
    using assms(2,3) unfolding sessionInv_def s' 
    by (auto simp: s1 nth_append less_Suc_eq split: if_splits)
qed

lemma confirm_inv:
  assumes "sessionInv E opts b s" "eligible E opts b p"
    and "\<forall>p'. lookupMap s p' = Some r \<longrightarrow> p' = p"
  shows "sessionInv E opts b (s\<lparr>store := (store s)[r := (store s ! r)\<lparr>unverified := False\<rparr>]\<rparr>)"
proof (cases "r < length (store s)")
  case True
  then show ?thesis using assms unfolding sessionInv_def
    by (auto simp: nth_list_update)
next
  case False
  then have "(store s)[r := (store s ! r)\<lparr>unverified := False\<rparr>] = store s"
    using False by (intro list_update_beyond) simp
  then show ?thesis using assms(1) by (simp add: sessionInv_def)
qed

lemma finishEntry_inv:
  assumes "finishEntry E p x e s = (r, s')" "sessionInv E opts b s" "eligible E opts b p"
    and "\<forall>r0 p'. x = Object r0 \<longrightarrow> lookupMap s p' = Some r0 \<longrightarrow> p' = p"
  shows "sessionInv E opts b s'"
  using assms unfolding finishEntry_def
  by (auto split: jsvalue.splits if_splits intro: confirm_inv materialize_inv)

lemma catchHandler_inv:
  "catchHandler opts p ex s = (r, s') \<Longrightarrow> sessionInv E opts' b s \<Longrightarrow> sessionInv E opts' b s'"
  by (auto simp: catchHandler_def sessionInv_def split: if_splits)

lemma old_ref_key:
  assumes "sessionInv E opts b s" "sessionGrows s s1" "lookupMap s p = Some r0"
    "lookupMap s1 p' = Some r0"
  shows "p' = p"
proof -
  have "r0 < length (store s)" using assms(1,3) by (auto simp: sessionInv_def)
  moreover have "lookupMap s p' = Some r0 \<or> length (store s) \<le> r0"
    using assms(2,4) unfolding sessionGrows_def by blast
  ultimately have "lookupMap s p' = Some r0" by simp
  then show ?thesis using assms(1,3) unfolding sessionInv_def by blast
qed

lemma processEntry_unfold:
  assumes "\<not> verifiedEntry s (getProperty s fullPath)" "eligible E opts baseDir fullPath"
    and "(if isCss E opts fullPath then createManifestEntryCss E opts n fullPath baseDir targetDir s
          else Some (createManifestEntry E opts fullPath baseDir targetDir s None, s)) = build"
  shows "processEntry E opts n fullPath baseDir targetDir s =
        (case build of
           None \<Rightarrow> None
         | Some (Inl ex, s1) \<Rightarrow> Some (catchHandler opts fullPath ex s1)
         | Some (Inr e, s1) \<Rightarrow>
             (case finishEntry E fullPath (getProperty s fullPath) e s1 of
                (Inl ex, s2) \<Rightarrow> Some (catchHandler opts fullPath ex s2)
              | (Inr r, s2) \<Rightarrow> Some (Inr r, s2)))"
  unfolding assms(3)[symmetric] processEntry.simps[of E opts n fullPath baseDir targetDir s]
  using assms(1,2) by (simp add: eligible_def)

lemma processEntry_skip:
  assumes "verifiedEntry s (getProperty s fullPath) \<or> \<not> eligible E opts baseDir fullPath"
    and "processEntry E opts n fullPath baseDir targetDir s = Some (r, s')"
  shows "s' = s"
  using assms unfolding processEntry.simps[of E opts n fullPath baseDir targetDir s] eligible_def
  by (auto split: if_splits)

lemma stepClosedD:
  assumes "stepClosed Q E opts b"
  shows "Q s s" and "Q s1 s2 \<Longrightarrow> Q s2 s3 \<Longrightarrow> Q s1 s3"
    and "\<not> verifiedEntry s (getProperty s fullPath) \<Longrightarrow> eligible E opts b fullPath \<Longrightarrow> Q s sb \<Longrightarrow>
          buildEntry E opts n fullPath b t s = Some (Inr e, sb) \<Longrightarrow>
          finishEntry E fullPath (getProperty s fullPath) e sb = (rf, sf) \<Longrightarrow> Q s sf"
    and "catchHandler opts fullPath ex s = (r, s') \<Longrightarrow> Q s s'"
  using assms unfolding stepClosed_def by blast+

lemma stepClosedI:
  assumes "\<And>s. Q s s"
    and "\<And>s1 s2 s3. Q s1 s2 \<Longrightarrow> Q s2 s3 \<Longrightarrow> Q s1 s3"
    and "\<And>fullPath s sb e rf sf n t.
          \<not> verifiedEntry s (getProperty s fullPath) \<Longrightarrow> eligible E opts b fullPath \<Longrightarrow> Q s sb \<Longrightarrow>
          buildEntry E opts n fullPath b t s = Some (Inr e, sb) \<Longrightarrow>
          finishEntry E fullPath (getProperty s fullPath) e sb = (rf, sf) \<Longrightarrow> Q s sf"
    and "\<And>fullPath ex s r s'. catchHandler opts fullPath ex s = (r, s') \<Longrightarrow> Q s s'"
  shows "stepClosed Q E opts b"
  using assms unfolding stepClosed_def by blast

lemma run_rule:
  shows "processEntry E opts n p b t s = Some (r, s') \<Longrightarrow> stepClosed Q E opts b \<Longrightarrow> Q s s'"
    and "createManifestEntryCss E opts n p b t s = Some (rc, s') \<Longrightarrow> stepClosed Q E opts b \<Longrightarrow> Q s s'"
    and "cssProcessor_processCss E opts n p b t ts s = Some (ro, s') \<Longrightarrow> stepClosed Q E opts b \<Longrightarrow> Q s s'"
    and "processImagePath E opts n p b t u s = Some (ro, s') \<Longrightarrow> stepClosed Q E opts b \<Longrightarrow> Q s s'"
proof (induction E opts n p b t s and E opts n p b t s and E opts n p b t ts s and E opts n p b t u s
       arbitrary: r s' and rc s' and ro s' and ro s'
       rule: processEntry_createManifestEntryCss_cssProcessor_processCss_processImagePath.induct)
  case (1 E opts n fullPath baseDir targetDir s)
  note hyps = "1.prems"(2)
  note sc = stepClosedD[OF hyps]
  show ?case
  proof (cases "verifiedEntry s (getProperty s fullPath) \<or> \<not> eligible E opts baseDir fullPath")
    case True
    then have "s' = s" using "1.prems"(1) by (rule processEntry_skip)
    then show ?thesis using sc(1) by simp
  next
    case False
    then have el: "eligible E opts baseDir fullPath" and nv: "\<not> verifiedEntry s (getProperty s fullPath)"
      by simp_all
    have guards: "\<not> \<not> prefix baseDir fullPath"
      "\<not> isHashedFile E fullPath" "\<not> shouldBeExcluded E opts fullPath"
      using el by (auto simp: eligible_def)
    define build where "build =
      (if isCss E opts fullPath then createManifestEntryCss E opts n fullPath baseDir targetDir s
        else Some (createManifestEntry E opts fullPath baseDir targetDir s None, s))"
    note pe0 = processEntry_unfold[OF nv el build_def[symmetric]]
    obtain rb sb where b: "build = Some (rb, sb)"
      using "1.prems"(1) pe0 by (cases build) auto
    have qb: "Q s sb"
    proof (cases "isCss E opts fullPath")
      case True
      then have "createManifestEntryCss E opts n fullPath baseDir targetDir s = Some (rb, sb)"
        using b by (simp add: build_def)
      then show ?thesis using "1.IH"[OF nv guards True _ hyps] by blast
    next
      case False
      then show ?thesis using b sc(1) by (simp add: build_def)
    qed
    show ?thesis
    proof (cases rb)
      case (Inl ex)
      then have "catchHandler opts fullPath ex sb = (r, s')" using "1.prems"(1) pe0 b by simp
      then show ?thesis using sc(2,4) qb by blast
    next
      case (Inr e)
      obtain rf sf where f: "finishEntry E fullPath (getProperty s fullPath) e sb = (rf, sf)"
        by (cases "finishEntry E fullPath (getProperty s fullPath) e sb")
      have be: "buildEntry E opts n fullPath baseDir targetDir s = Some (Inr e, sb)"
        using b Inr by (simp add: build_def buildEntry_def)
      have qf: "Q s sf" using sc(3)[OF nv el qb be f] .
      show ?thesis
      proof (cases rf)
        case (Inl ex)
        then have "catchHandler opts fullPath ex sf = (r, s')" using "1.prems"(1) pe0 b Inr f by simp
        then show ?thesis using sc(2,4) qf by blast
      next
        case (Inr x)
        then have "s' = sf" using "1.prems"(1) pe0 b \<open>rb = Inr e\<close> f by simp
        then show ?thesis using qf by simp
      qed
    qed
  qed
next
  case (2 E opts fullPath basePath targetDir s)
  then show ?case by simp
next
  case (3 E opts n fullPath basePath targetDir s)
  note hyps = "3.prems"(2)
  note sc = stepClosedD[OF hyps]
  show ?case
  proof (cases "readFileSync s fullPath")
    case (Inl ex)
    then show ?thesis using "3.prems"(1) sc(1) by simp
  next
    case (Inr contents)
    show ?thesis
    proof (cases "cssProcessor_processCss E opts n fullPath basePath targetDir (cssTokens E contents) s")
      case None
      then show ?thesis using "3.prems"(1) Inr by simp
    next
      case (Some a)
      obtain ro s1 where a: "a = (ro, s1)" by (cases a)
      have "Q s s1" using "3.IH"[OF Inr _ hyps] Some a by blast
      moreover have "s' = s1" using "3.prems"(1) Inr Some a by (auto split: sum.splits)
      ultimately show ?thesis by simp
    qed
  qed
next
  case (4 E opts n fullPath basePath targetDir s)
  then show ?case using stepClosedD(1) by simp
next
  case (5 E opts n fullPath basePath targetDir t ts s)
  note hyps = "5.prems"(2)
  show ?case
  proof (cases "cssProcessor_processCss E opts n fullPath basePath targetDir ts s")
    case None
    then show ?thesis using "5.prems"(1) by simp
  next
    case (Some a)
    obtain ro1 s1 where a: "a = (ro1, s1)" by (cases a)
    have "Q s s1" using "5.IH"[OF _ hyps] Some a by blast
    moreover have "s' = s1" using "5.prems"(1) Some a by (auto split: sum.splits)
    ultimately show ?thesis by simp
  qed
next
  case (6 E opts n fullPath basePath targetDir u ts s)
  note hyps = "6.prems"(2)
  note sc = stepClosedD[OF hyps]
  show ?case
  proof (cases "processImagePath E opts n fullPath basePath targetDir u s")
    case None
    then show ?thesis using "6.prems"(1) by simp
  next
    case (Some a)
    obtain r1 s1 where a: "a = (r1, s1)" by (cases a)
    have q1: "Q s s1" using "6.IH"(1)[OF _ hyps] Some a by blast
    show ?thesis
    proof (cases r1)
      case (Inl ex)
      then have "s' = s1" using "6.prems"(1) Some a by simp
      then show ?thesis using q1 by simp
    next
      case (Inr u')
      show ?thesis
      proof (cases "cssProcessor_processCss E opts n fullPath basePath targetDir ts s1")
        case None
        then show ?thesis using "6.prems"(1) Some a Inr by simp
      next
        case (Some a2)
        obtain r2 s2 where a2: "a2 = (r2, s2)" by (cases a2)
        have "Q s1 s2" using "6.IH"(2)[OF \<open>processImagePath E opts n fullPath basePath targetDir u s = Some a\<close> a[symmetric] Inr _ hyps] Some a2 by blast
        moreover have "s' = s2" using "6.prems"(1) \<open>processImagePath E opts n fullPath basePath targetDir u s = Some a\<close> a Inr Some a2
          by (auto split: sum.splits)
        ultimately show ?thesis using q1 sc(2) by blast
      qed
    qed
  qed
next
  case (7 E opts n fullPath basePath targetDir virtualPath s)
  note hyps = "7.prems"(2)
  show ?case
  proof (cases "processEntry E opts n (resolveReference E fullPath basePath virtualPath) basePath targetDir s")
    case None
    then show ?thesis using "7.prems"(1)
      unfolding processImagePath.simps[of E opts n fullPath basePath targetDir virtualPath s]
      by simp
  next
    case (Some a)
    obtain r1 s1 where a: "a = (r1, s1)" by (cases a)
    have "Q s s1" using "7.IH"[OF _ hyps] Some a by blast
    moreover have "s' = s1" using "7.prems"(1) Some a
      unfolding processImagePath.simps[of E opts n fullPath basePath targetDir virtualPath s]
      by (auto split: sum.splits option.splits jsvalue.splits)
    ultimately show ?thesis by simp
  qed
qed

lemma grows_all:
  shows "processEntry E opts n p b t s = Some (r, s') \<Longrightarrow> sessionGrows s s'"
    and "createManifestEntryCss E opts n p b t s = Some (rc, s') \<Longrightarrow> sessionGrows s s'"
    and "cssProcessor_processCss E opts n p b t ts s = Some (ro, s') \<Longrightarrow> sessionGrows s s'"
    and "processImagePath E opts n p b t u s = Some (ro1, s') \<Longrightarrow> sessionGrows s s'"
  by (erule run_rule, unfold stepClosed_def,
      blast intro: sessionGrows_refl sessionGrows_trans finishEntry_grows catchHandler_grows)+

lemma inv_closed:
  "stepClosed (\<lambda>s s'. sessionInv E opts b s \<longrightarrow> sessionInv E opts b s' \<and> sessionGrows s s') E opts b"
proof -
  let ?Q = "\<lambda>s s'. sessionInv E opts b s \<longrightarrow> sessionInv E opts b s' \<and> sessionGrows s s'"
  have a: "?Q s s" for s by (simp add: sessionGrows_refl)
  have b: "?Q s1 s3" if "?Q s1 s2" "?Q s2 s3" for s1 s2 s3
    using that by (blast intro: sessionGrows_trans)
  have c: "?Q s sf"
    if el: "eligible E opts b fullPath" and q: "?Q s sb"
      and f: "finishEntry E fullPath (getProperty s fullPath) e sb = (rf, sf)"
    for fullPath s sb e rf sf
  proof
    assume i: "sessionInv E opts b s"
    have ib: "sessionInv E opts b sb" and gb: "sessionGrows s sb" using q i by simp_all
    have key: "\<forall>r0 p'. getProperty s fullPath = Object r0 \<longrightarrow> lookupMap sb p' = Some r0 \<longrightarrow> p' = fullPath"
      using old_ref_key[OF i gb] by (auto simp: getProperty_Object)
    have "sessionInv E opts b sf" using finishEntry_inv[OF f ib el] key by blast
    moreover have "sessionGrows s sf" using gb finishEntry_grows[OF f] by (rule sessionGrows_trans)
    ultimately show "sessionInv E opts b sf \<and> sessionGrows s sf" ..
  qed
  have d: "?Q s s'" if "catchHandler opts fullPath ex s = (r, s')" for fullPath ex s r s'
    using that by (blast intro: catchHandler_inv catchHandler_grows)
  show ?thesis
  proof (rule stepClosedI)
    show "?Q s s" for s by (rule a)
    show "?Q s1 s3" if "?Q s1 s2" "?Q s2 s3" for s1 s2 s3 using that by (rule b)
    show "?Q s sf"
      if "\<not> verifiedEntry s (getProperty s fullPath)" "eligible E opts b fullPath" "?Q s sb"
        "buildEntry E opts n fullPath b t s = Some (Inr e, sb)"
        "finishEntry E fullPath (getProperty s fullPath) e sb = (rf, sf)"
      for fullPath s sb e rf sf n t using that(2,3,5) by (rule c)
    show "?Q s s'" if "catchHandler opts fullPath ex s = (r, s')" for fullPath ex s r s'
      using that by (rule d)
  qed
qed

lemma processEntry_inv:
  assumes "processEntry E opts n p b t s = Some (r, s')" "sessionInv E opts b s"
  shows "sessionInv E opts b s'"
proof -
  have "sessionInv E opts b s \<longrightarrow> sessionInv E opts b s' \<and> sessionGrows s s'"
    by (rule run_rule(1)[OF assms(1) inv_closed])
  then show ?thesis using assms(2) by simp
qed

lemma processAll_Cons:
  assumes "processAll E opts n (f # fs) b t s = Some (r, s')"
  obtains (throw) ex where "processEntry E opts n f b t s = Some (Inl ex, s')" "r = Inl ex"
  | (continue) x s1 where "processEntry E opts n f b t s = Some (Inr x, s1)"
      "processAll E opts n fs b t s1 = Some (r, s')"
proof (cases "processEntry E opts n f b t s")
  case None
  then show ?thesis using assms by simp
next
  case (Some a)
  obtain r1 s1 where a: "a = (r1, s1)" by (cases a)
  show ?thesis
  proof (cases r1)
    case (Inl ex)
    then show ?thesis using assms Some a throw by simp
  next
    case (Inr x)
    then show ?thesis using assms Some a continue by simp
  qed
qed


lemma processAll_inv:
  "processAll E opts n fs b t s = Some (r, s') \<Longrightarrow> sessionInv E opts b s \<Longrightarrow> sessionInv E opts b s'"
proof (induction fs arbitrary: s)
  case Nil
  then show ?case by simp
next
  case (Cons f fs)
  from Cons.prems(1) show ?case
  proof (cases rule: processAll_Cons)
    case (throw ex)
    then show ?thesis using Cons.prems(2) by (blast intro: processEntry_inv)
  next
    case (continue x s1)
    then show ?thesis using Cons.IH Cons.prems(2) processEntry_inv by blast
  qed
qed

lemma seedLookup_cases:
  "seedLookup i es m p = Some r \<Longrightarrow>
     m p = Some r \<or> (i \<le> r \<and> r < i + length es \<and> pathPhysical (es ! (r - i)) = p)"
proof (induction es arbitrary: i m)
  case Nil
  then show ?case by simp
next
  case (Cons e es)
  from Cons.IH[OF Cons.prems[simplified]]
  show ?case
    by (auto simp: nth_Cons' Suc_diff_le split: if_splits)
qed

lemma seedSession_inv: "sessionInv E opts b (seedSession existing fs tr)"
proof (cases existing)
  case None
  then show ?thesis by (simp add: seedSession_def sessionInv_def)
next
  case (Some es)
  have "\<And>p r. seedLookup 0 es Map.empty p = Some r \<Longrightarrow> r < length es \<and> pathPhysical (es ! r) = p"
    using seedLookup_cases[of 0 es Map.empty] by fastforce
  then show ?thesis using Some
    by (auto simp: seedSession_def sessionInv_def)
qed

lemma inv_not_verified:
  assumes "sessionInv E opts b s" "\<not> eligible E opts b p" "getProperty s p \<noteq> Truthy"
  shows "\<not> verifiedEntry s (getProperty s p)"
  using assms unfolding sessionInv_def verifiedEntry_cases by blast

lemma reached_inv:
  assumes "processAll E opts n earlier b t (seedSession existing fs tr) = Some (r, s)"
  shows "sessionInv E opts b s"
  using processAll_inv[OF assms seedSession_inv] .


lemma processCss_append:
  "cssProcessor_processCss E opts n p b t (xs @ ys) s =
     (case cssProcessor_processCss E opts n p b t xs s of
        None \<Rightarrow> None
      | Some (Inl ex, s1) \<Rightarrow> Some (Inl ex, s1)
      | Some (Inr o1, s1) \<Rightarrow>
          (case cssProcessor_processCss E opts n p b t ys s1 of
             None \<Rightarrow> None
           | Some (Inl ex, s2) \<Rightarrow> Some (Inl ex, s2)
           | Some (Inr o2, s2) \<Rightarrow> Some (Inr (o1 @ o2), s2)))"
proof (induction xs arbitrary: s)
  case Nil
  show ?case by (auto split: option.splits jsvalue.splits sum.splits prod.splits)
next
  case (Cons x xs)
  show ?case
  proof (cases x)
    case (Text a)
    then show ?thesis using Cons.IH
      by (auto split: option.splits jsvalue.splits sum.splits prod.splits)
  next
    case (Url u)
    then show ?thesis using Cons.IH
      by (auto split: option.splits jsvalue.splits sum.splits prod.splits)
  qed
qed

lemma run_resultI:
  "(case X of None \<Rightarrow> False | Some (r, s) \<Rightarrow> r = v) \<Longrightarrow> X = Some (v, snd (the X))"
  by (cases X) auto

lemma processEntry_try:
  assumes "\<not> verifiedEntry s (getProperty s fullPath)" "eligible E opts baseDir fullPath"
  shows "processEntry E opts n fullPath baseDir targetDir s =
        (case tryBlock E opts n fullPath baseDir targetDir s of
           None \<Rightarrow> None
         | Some (Inl ex, s2) \<Rightarrow> Some (catchHandler opts fullPath ex s2)
         | Some (Inr r, s2) \<Rightarrow> Some (Inr r, s2))"
  unfolding processEntry_unfold[OF assms refl] tryBlock_def buildEntry_def
  by (auto split: option.splits jsvalue.splits sum.splits prod.splits)


lemma buildEntry_plain:
  "\<not> isCss E opts p \<Longrightarrow> buildEntry E opts n p b t s = Some (r, sb) \<Longrightarrow> sb = s"
  by (simp add: buildEntry_def)

lemma trim_verified [simp]: "trim (e\<lparr>unverified := v\<rparr>) = trim e"
  by (simp add: trim_def)





lemma materialize_cases:
  assumes "materialize E p e s = (r, s')"
  obtains (fail) ex where "r = Inl ex" "s' = s"
  | (ok) e1 s1 where "r = Inr (Object (length (store s)))"
      "s' = s1\<lparr>store := store s @ [e1], manifest := manifest s @ [length (store s)],
                lookupMap := (lookupMap s)(p \<mapsto> length (store s))\<rparr>"
      "path e1 = path e" "hashedPath e1 = hashedPath e" "hashCode e1 = hashCode e"
      "pathPhysical e1 = pathPhysical e" "hashedPathPhysical e1 = hashedPathPhysical e"
      "extra e1 = extra e" "unverified e1 = unverified e"
      "store s1 = store s" "manifest s1 = manifest s" "lookupMap s1 = lookupMap s"
      "errors s1 = errors s"
      "\<exists>op. trace s1 = trace s @ [op]"
      "\<forall>q. q \<noteq> hashedPathPhysical e \<longrightarrow> files s1 q = files s q"
proof -
  define w where "w = (case transformedText e of
              Some t \<Rightarrow>
                if t \<noteq> [] then
                  (case writeFileSync E (hashedPathPhysical e) t s of
                     Inl ex \<Rightarrow> Inl ex
                   | Inr s1 \<Rightarrow> Inr (e\<lparr>transformedText := None\<rparr>, s1))
                else
                  (case copySync E (pathPhysical e) (hashedPathPhysical e) s of
                     Inl ex \<Rightarrow> Inl ex
                   | Inr s1 \<Rightarrow> Inr (e, s1))
            | None \<Rightarrow>
                (case copySync E (pathPhysical e) (hashedPathPhysical e) s of
                   Inl ex \<Rightarrow> Inl ex
                 | Inr s1 \<Rightarrow> Inr (e, s1)))"
  have m: "materialize E p e s = (case w of
        Inl ex \<Rightarrow> (Inl ex, s)
      | Inr (e1, s1) \<Rightarrow>
          (Inr (Object (length (store s1))),
               s1\<lparr>store := store s1 @ [e1],
                  manifest := manifest s1 @ [length (store s1)],
                  lookupMap := (lookupMap s1)(p \<mapsto> length (store s1))\<rparr>))"
    unfolding materialize_def w_def Let_def ..
  show ?thesis
  proof (cases w)
    case (Inl ex)
    then show ?thesis using m assms fail by simp
  next
    case (Inr b)
    obtain e1 s1 where b: "b = (e1, s1)" by (cases b)
    have props: "path e1 = path e \<and> hashedPath e1 = hashedPath e \<and> hashCode e1 = hashCode e \<and>
      pathPhysical e1 = pathPhysical e \<and> hashedPathPhysical e1 = hashedPathPhysical e \<and>
      extra e1 = extra e \<and> unverified e1 = unverified e \<and>
      (\<forall>q. q \<noteq> hashedPathPhysical e \<longrightarrow> files s1 q = files s q) \<and>
      store s1 = store s \<and> manifest s1 = manifest s \<and> lookupMap s1 = lookupMap s \<and>
      errors s1 = errors s \<and> (\<exists>op. trace s1 = trace s @ [op])"
      using Inr b unfolding w_def writeFileSync_def copySync_def
      by (auto split: option.splits jsvalue.splits if_splits)
    show ?thesis
      using ok[of e1 s1] m assms Inr b props by simp
  qed
qed

lemma sum_resultI: "(case X of Inl a \<Rightarrow> False | Inr b \<Rightarrow> True) \<Longrightarrow> X = Inr (projr X)"
  by (cases X) auto





lemma build_resultI:
  "(case X of Some (Inr e, s) \<Rightarrow> True | _ \<Rightarrow> False) \<Longrightarrow>
     X = Some (Inr (projr (fst (the X))), snd (the X))"
  by (cases X) (auto split: sum.splits)

lemma cleanOldWalk_trace:
  "trace (cleanOldWalk E opts fileSet oldest listing s) =
     trace s @ map DeleteOp
       (filter (\<lambda>f. isHashedFile E f \<and> f \<notin> set fileSet \<and>
                     \<not> ((case cleanOldDays opts of Some d \<Rightarrow> d > 0 | None \<Rightarrow> False)
                         \<and> statMtime E f \<ge> oldest)) listing)"
proof (induction listing arbitrary: s)
  case Nil
  show ?case by simp
next
  case (Cons a listing)
  show ?case by (simp add: Cons.IH deleteSync_def)
qed

lemma cleanOldWalk_files:
  "files (cleanOldWalk E opts fileSet oldest listing s) f =
     (if f \<in> set listing \<and> isHashedFile E f \<and> f \<notin> set fileSet \<and>
               \<not> ((case cleanOldDays opts of Some d \<Rightarrow> d > 0 | None \<Rightarrow> False)
                   \<and> statMtime E f \<ge> oldest)
            then None else files s f)"
proof (induction listing arbitrary: s)
  case Nil
  show ?case by simp
next
  case (Cons a listing)
  show ?case by (auto simp: Cons.IH deleteSync_def)
qed


lemma tryBlock_raises:
  assumes "continueOnError opts" "\<not> verifiedEntry s (getProperty s p)" "eligible E opts b p"
    and "tryBlock E opts n p b t s = Some (Inl ex, sf)"
  shows "processEntry E opts n p b t s =
           Some (Inr Falsy, sf\<lparr>errors := errors sf @ [''ERROR: '' @ p @ '': '' @ ex]\<rparr>)"
  using processEntry_try[OF assms(2,3), of n t] assms(1,4)
  by (simp add: catchHandler_def)

lemma tryBlock_plain_raises:
  assumes "\<not> isCss E opts p" "tryBlock E opts n p b t s = Some (Inl ex, sf)"
  shows "sf = s"
proof (cases "createManifestEntry E opts p b t s None")
  case (Inl a)
  then show ?thesis using assms by (simp add: tryBlock_def buildEntry_def)
next
  case (Inr e)
  then have f: "finishEntry E p (getProperty s p) e s = (Inl ex, sf)"
    using assms by (simp add: tryBlock_def buildEntry_def)
  then have "materialize E p e s = (Inl ex, sf)"
    unfolding finishEntry_def by (auto split: option.splits jsvalue.splits if_splits)
  then show ?thesis by (cases rule: materialize_cases) simp_all
qed

lemma reference_without_entry:
  assumes "cssProcessor_processCss E opts n fullPath basePath targetDir before s0 = Some (Inr o1, s)"
    and "processEntry E opts n (resolveReference E fullPath basePath u) basePath targetDir s =
           Some (Inr Falsy, s1)"
    and "cssProcessor_processCss E opts n fullPath basePath targetDir after s1 = Some (Inr o2, s2)"
  shows "processImagePath E opts n fullPath basePath targetDir u s = Some (Inr u, s1) \<and>
         cssProcessor_processCss E opts n fullPath basePath targetDir (before @ Url u # after) s0 =
           Some (Inr (o1 @ u @ o2), s2)"
  using assms
  by (simp add: processCss_append processImagePath.simps[of E opts n fullPath basePath targetDir u s])

lemma processAll_single:
  "processAll E opts n [f] b t s =
     (case processEntry E opts n f b t s of
        None \<Rightarrow> None
      | Some (Inl ex, s1) \<Rightarrow> Some (Inl ex, s1)
      | Some (Inr r, s1) \<Rightarrow> Some (Inr (), s1))"
  by (auto split: option.splits jsvalue.splits sum.splits prod.splits)


lemma trim_existingEntry [simp]: "trim (existingEntry b tg x) = x"
  by (simp add: trim_def existingEntry_def)










































subsection \<open>The example environment\<close>













section \<open>The claims\<close>

text \<open>
  C8. A candidate path under the base directory that the resolver recognizes as hashed
  output is skipped: in any session reached by processing earlier candidates,
  \<open>processEntry\<close> returns no entry and leaves the session as it was (no entry in the
  manifest, no copy, write or deletion in the trace, no message in the error list), and
  it does not throw. What it returns is \<open>undefined\<close>; only when the path is the name of
  a truthy property that the lookup object inherits, line 100 has returned that value
  before. This holds for every nesting bound, so the call always returns.
\<close>

theorem already_hashed_skipped:
  assumes "processAll E opts n earlier baseDir targetDir (seedSession existing fs tr) = Some (Inr (), s)"
    and "prefix baseDir fullPath" and "isHashedFile E fullPath"
  shows "processEntry E opts n fullPath baseDir targetDir s =
           Some (Inr (if getProperty s fullPath = Truthy then Truthy else Falsy), s)"
proof (cases "getProperty s fullPath = Truthy")
  case True
  then show ?thesis
    by (simp add: processEntry.simps[of E opts n fullPath baseDir targetDir s] verifiedEntry_def)
next
  case False
  have "\<not> eligible E opts baseDir fullPath" using assms(3) by (simp add: eligible_def)
  then have "\<not> verifiedEntry s (getProperty s fullPath)"
    using inv_not_verified reached_inv[OF assms(1)] False by blast
  then show ?thesis using assms(2,3) False
    by (simp add: processEntry.simps[of E opts n fullPath baseDir targetDir s])
qed

theorem already_hashed_skipped_witness:
  "processAll (posixEnv (\<lambda>p. None) [] (\<lambda>p. 0)) plainOptions 0 [''/src/a.txt''] ''/src'' ''/dist''
       (seedSession None srcTree []) =
     Some (Inr (), snd (the (processAll (posixEnv (\<lambda>p. None) [] (\<lambda>p. 0)) plainOptions 0
       [''/src/a.txt''] ''/src'' ''/dist'' (seedSession None srcTree [])))) \<and>
   prefix ''/src'' ''/src/a-hchello.txt'' \<and>
   isHashedFile (posixEnv (\<lambda>p. None) [] (\<lambda>p. 0)) ''/src/a-hchello.txt'' \<and>
   processEntry (posixEnv (\<lambda>p. None) [] (\<lambda>p. 0)) plainOptions 0 ''/src/a-hchello.txt'' ''/src'' ''/dist''
       (snd (the (processAll (posixEnv (\<lambda>p. None) [] (\<lambda>p. 0)) plainOptions 0
       [''/src/a.txt''] ''/src'' ''/dist'' (seedSession None srcTree [])))) =
     Some (Inr Falsy, snd (the (processAll (posixEnv (\<lambda>p. None) [] (\<lambda>p. 0)) plainOptions 0
       [''/src/a.txt''] ''/src'' ''/dist'' (seedSession None srcTree []))))"
proof -
  let ?E = "posixEnv (\<lambda>p. None) [] (\<lambda>p. 0)"
  let ?X = "processAll ?E plainOptions 0 [''/src/a.txt''] ''/src'' ''/dist'' (seedSession None srcTree [])"
  have "case ?X of None \<Rightarrow> False | Some (r, s) \<Rightarrow> r = Inr ()" by code_simp
  then have h1: "?X = Some (Inr (), snd (the ?X))" by (rule run_resultI)
  have h2: "prefix ''/src'' ''/src/a-hchello.txt''" by simp
  have h3: "isHashedFile ?E ''/src/a-hchello.txt''" by code_simp
  have h4: "getProperty (snd (the ?X)) ''/src/a-hchello.txt'' = Falsy" by code_simp
  show ?thesis using already_hashed_skipped[OF h1 h2 h3] h1 h2 h3 h4 by simp
qed




text \<open>
  C5. When the recursive call of \<open>processEntry\<close> for the resolved target of a reference
  returns no entry, the callback returns the reference as it was, and the transformed
  text of the stylesheet holds it unchanged between the output of the tokens before it
  and the output of the tokens after it.
\<close>

theorem unresolved_reference_unchanged:
  assumes "cssProcessor_processCss E opts n fullPath basePath targetDir before s0 = Some (Inr o1, s)"
    and "processEntry E opts n (resolveReference E fullPath basePath u) basePath targetDir s =
           Some (Inr Falsy, s1)"
    and "cssProcessor_processCss E opts n fullPath basePath targetDir after s1 = Some (Inr o2, s2)"
  shows "processImagePath E opts n fullPath basePath targetDir u s = Some (Inr u, s1) \<and>
         cssProcessor_processCss E opts n fullPath basePath targetDir (before @ Url u # after) s0 =
           Some (Inr (o1 @ u @ o2), s2)"
  using assms by (rule reference_without_entry)

theorem unresolved_reference_unchanged_witness:
  "cssProcessor_processCss (posixEnv (\<lambda>p. None) [] (\<lambda>p. 0))
       (plainOptions\<lparr>processCss := True, continueOnError := True\<rparr>) 0
       ''/src/style.css'' ''/src'' ''/dist'' [Text ''background: url('']
       (seedSession None srcTree []) =
     Some (Inr ''background: url('', seedSession None srcTree []) \<and>
   processEntry (posixEnv (\<lambda>p. None) [] (\<lambda>p. 0))
       (plainOptions\<lparr>processCss := True, continueOnError := True\<rparr>) 0
       (resolveReference (posixEnv (\<lambda>p. None) [] (\<lambda>p. 0)) ''/src/style.css'' ''/src'' ''missing.png'')
       ''/src'' ''/dist'' (seedSession None srcTree []) =
     Some (Inr Falsy, snd (the (processEntry (posixEnv (\<lambda>p. None) [] (\<lambda>p. 0))
       (plainOptions\<lparr>processCss := True, continueOnError := True\<rparr>) 0
       ''/src/missing.png'' ''/src'' ''/dist'' (seedSession None srcTree [])))) \<and>
   cssProcessor_processCss (posixEnv (\<lambda>p. None) [] (\<lambda>p. 0))
       (plainOptions\<lparr>processCss := True, continueOnError := True\<rparr>) 0
       ''/src/style.css'' ''/src'' ''/dist''
       ([Text ''background: url(''] @ Url ''missing.png'' # [Text '')''])
       (seedSession None srcTree []) =
     Some (Inr (''background: url('' @ ''missing.png'' @ '')''),
           snd (the (processEntry (posixEnv (\<lambda>p. None) [] (\<lambda>p. 0))
       (plainOptions\<lparr>processCss := True, continueOnError := True\<rparr>) 0
       ''/src/missing.png'' ''/src'' ''/dist'' (seedSession None srcTree []))))"
proof -
  let ?E = "posixEnv (\<lambda>p. None) [] (\<lambda>p. 0)"
  let ?o = "plainOptions\<lparr>processCss := True, continueOnError := True\<rparr>"
  let ?s = "seedSession None srcTree []"
  let ?X = "processEntry ?E ?o 0 ''/src/missing.png'' ''/src'' ''/dist'' ?s"
  have r: "resolveReference ?E ''/src/style.css'' ''/src'' ''missing.png'' = ''/src/missing.png''"
    by code_simp
  have h1: "cssProcessor_processCss ?E ?o 0 ''/src/style.css'' ''/src'' ''/dist''
              [Text ''background: url(''] ?s = Some (Inr ''background: url('', ?s)" by simp
  have "case ?X of None \<Rightarrow> False | Some (r, s) \<Rightarrow> r = Inr Falsy" by code_simp
  then have h2: "?X = Some (Inr Falsy, snd (the ?X))" by (rule run_resultI)
  have h3: "cssProcessor_processCss ?E ?o 0 ''/src/style.css'' ''/src'' ''/dist''
              [Text '')''] (snd (the ?X)) = Some (Inr '')'', snd (the ?X))" by simp
  have h2': "processEntry ?E ?o 0 (resolveReference ?E ''/src/style.css'' ''/src'' ''missing.png'')
               ''/src'' ''/dist'' ?s = Some (Inr Falsy, snd (the ?X))"
    using h2 r by simp
  show ?thesis
    using unresolved_reference_unchanged[OF h1 h2' h3] h1 h2' by simp
qed

text \<open>
  C1 (as amended). In amend mode, when the entry carried over for a candidate is still
  unverified and records the hashed virtual path that the fresh descriptor has,
  \<open>processEntry\<close> clears the marker of that entry and returns the entry itself. The
  session it leaves is the one the construction of the descriptor left (\<open>sb\<close>), with
  only the marker changed: the confirmation copies and writes nothing and appends
  nothing to the manifest. For a file that is not rewritten as a stylesheet the
  construction changes nothing (\<open>sb = s\<close>), so the whole call performs no file
  operation; for a stylesheet \<open>sb\<close> holds what the recursive processing of its
  references did.
\<close>

theorem confirm_carry_over:
  assumes "lookupMap s fullPath = Some r"
    and "unverified (store s ! r)"
    and "eligible E opts baseDir fullPath"
    and "buildEntry E opts n fullPath baseDir targetDir s = Some (Inr e, sb)"
    and "unverified (store sb ! r)"
    and "hashedPath e = hashedPath (store sb ! r)"
  shows "processEntry E opts n fullPath baseDir targetDir s =
           Some (Inr (Object r), sb\<lparr>store := (store sb)[r := (store sb ! r)\<lparr>unverified := False\<rparr>]\<rparr>)
         \<and> (\<not> isCss E opts fullPath \<longrightarrow> sb = s)"
proof -
  have nv: "\<not> verifiedEntry s (getProperty s fullPath)"
    using assms(1,2) by (simp add: verifiedEntry_def getProperty_own)
  have "tryBlock E opts n fullPath baseDir targetDir s =
          Some (Inr (Object r), sb\<lparr>store := (store sb)[r := (store sb ! r)\<lparr>unverified := False\<rparr>]\<rparr>)"
    using assms(1,4,5,6) by (simp add: tryBlock_def finishEntry_def getProperty_own)
  then show ?thesis
    using processEntry_try[OF nv assms(3)] buildEntry_plain[OF _ assms(4)] by simp
qed

theorem confirm_carry_over_witness:
  "lookupMap (seedSession (Some currentManifest) srcTree []) ''/src/a.txt'' = Some 0 \<and>
   unverified (store (seedSession (Some currentManifest) srcTree []) ! 0) \<and>
   eligible posix (plainOptions\<lparr>amend := True\<rparr>) ''/src'' ''/src/a.txt'' \<and>
   buildEntry posix (plainOptions\<lparr>amend := True\<rparr>) 0 ''/src/a.txt'' ''/src'' ''/dist''
       (seedSession (Some currentManifest) srcTree []) =
     Some (Inr (projr (createManifestEntry posix (plainOptions\<lparr>amend := True\<rparr>) ''/src/a.txt''
                         ''/src'' ''/dist'' (seedSession (Some currentManifest) srcTree []) None)),
           seedSession (Some currentManifest) srcTree []) \<and>
   hashedPath (projr (createManifestEntry posix (plainOptions\<lparr>amend := True\<rparr>) ''/src/a.txt''
                         ''/src'' ''/dist'' (seedSession (Some currentManifest) srcTree []) None)) =
     hashedPath (store (seedSession (Some currentManifest) srcTree []) ! 0) \<and>
   processEntry posix (plainOptions\<lparr>amend := True\<rparr>) 0 ''/src/a.txt'' ''/src'' ''/dist''
       (seedSession (Some currentManifest) srcTree []) =
     Some (Inr (Object 0),
           (seedSession (Some currentManifest) srcTree [])
             \<lparr>store := (store (seedSession (Some currentManifest) srcTree []))
                 [0 := (store (seedSession (Some currentManifest) srcTree []) ! 0)
                         \<lparr>unverified := False\<rparr>]\<rparr>)"
proof -
  let ?o = "plainOptions\<lparr>amend := True\<rparr>"
  let ?s = "seedSession (Some currentManifest) srcTree []"
  let ?C = "createManifestEntry posix ?o ''/src/a.txt'' ''/src'' ''/dist'' ?s None"
  have h1: "lookupMap ?s ''/src/a.txt'' = Some 0" by code_simp
  have h2: "unverified (store ?s ! 0)" by code_simp
  have h3: "eligible posix ?o ''/src'' ''/src/a.txt''" by code_simp
  have "case ?C of Inl a \<Rightarrow> False | Inr b \<Rightarrow> True" by code_simp
  then have c: "?C = Inr (projr ?C)" by (rule sum_resultI)
  have "\<not> isCss posix ?o ''/src/a.txt''" by code_simp
  then have h4: "buildEntry posix ?o 0 ''/src/a.txt'' ''/src'' ''/dist'' ?s = Some (Inr (projr ?C), ?s)"
    using c by (simp add: buildEntry_def)
  have h6: "hashedPath (projr ?C) = hashedPath (store ?s ! 0)" by code_simp
  show ?thesis
    using confirm_carry_over[OF h1 h2 h3 h4 h2 h6] h1 h2 h3 h4 h6 by simp
qed

text \<open>
  The claim as stated fails for a stylesheet: with a previous manifest that lists
  \<open>/style.css\<close> under its current hashed path but not the image it references, the
  call for the stylesheet confirms the carried-over entry and, on the way, copies the
  image and appends an entry for it.
\<close>

theorem confirm_carry_over_counterexample:
  "lookupMap (seedSession (Some stylesheetManifest) srcTree []) ''/src/style.css'' = Some 0 \<and>
   unverified (store (seedSession (Some stylesheetManifest) srcTree []) ! 0) \<and>
   manifest (seedSession (Some stylesheetManifest) srcTree []) = [0] \<and>
   trace (seedSession (Some stylesheetManifest) srcTree []) = [] \<and>
   (case buildEntry posix (plainOptions\<lparr>amend := True, processCss := True\<rparr>) 1 ''/src/style.css''
           ''/src'' ''/dist'' (seedSession (Some stylesheetManifest) srcTree []) of
      Some (Inr e, sb) \<Rightarrow>
        hashedPath e = hashedPath (store (seedSession (Some stylesheetManifest) srcTree []) ! 0)
    | _ \<Rightarrow> False) \<and>
   (case processEntry posix (plainOptions\<lparr>amend := True, processCss := True\<rparr>) 1 ''/src/style.css''
           ''/src'' ''/dist'' (seedSession (Some stylesheetManifest) srcTree []) of
      Some (r, s') \<Rightarrow>
        r = Inr (Object 0) \<and> \<not> unverified (store s' ! 0) \<and>
        manifest s' = [0, 1] \<and>
        trace s' = [CopyOp ''/src/img.png'' ''/dist/img-hcdX.png'']
    | None \<Rightarrow> False)"
  by code_simp






text \<open>
  C9. \<open>cleanOld\<close>, given the set \<open>fileSet\<close> of the hashed paths that the manifest
  references (empty when there is no manifest), deletes exactly the files \<open>deleted\<close>: the
  files found below the directory that are hashed files, are not in \<open>fileSet\<close> and, when
  a positive number of days is configured, have a modification time before
  \<open>now\<close> minus that number of days. So a referenced file is never deleted, whatever its
  age; an unreferenced hashed file is deleted unconditionally without a positive
  threshold, and otherwise exactly when it is older than the threshold. Nothing else is
  deleted or changed.
\<close>

theorem stale_clean_deletes:
  assumes "referencedPaths E opts directory s = Inr fileSet"
  shows "\<exists>s' deleted.
           cleanOld E opts directory now s = Inr s' \<and>
           trace s' = trace s @ map DeleteOp deleted \<and>
           (\<forall>f. files s' f = (if f \<in> set deleted then None else files s f)) \<and>
           (\<forall>f. f \<in> set deleted \<longleftrightarrow>
                  f \<in> set (recurseDirSync E (files s) directory) \<and> isHashedFile E f \<and>
                  f \<notin> set fileSet \<and>
                  ((\<exists>d. cleanOldDays opts = Some d \<and> d > 0) \<longrightarrow>
                     statMtime E f < subtractDays E now (the (cleanOldDays opts))))"
proof -
  let ?oldest = "subtractDays E now (case cleanOldDays opts of Some d \<Rightarrow> d | None \<Rightarrow> 0)"
  let ?listing = "recurseDirSync E (files s) directory"
  let ?stale = "\<lambda>f. isHashedFile E f \<and> f \<notin> set fileSet \<and>
                     \<not> ((case cleanOldDays opts of Some d \<Rightarrow> d > 0 | None \<Rightarrow> False)
                         \<and> statMtime E f \<ge> ?oldest)"
  let ?s' = "cleanOldWalk E opts fileSet ?oldest ?listing s"
  have c: "cleanOld E opts directory now s = Inr ?s'"
    using assms by (simp add: cleanOld_def)
  have t: "trace ?s' = trace s @ map DeleteOp (filter ?stale ?listing)"
    by (rule cleanOldWalk_trace)
  have f: "\<forall>f. files ?s' f = (if f \<in> set (filter ?stale ?listing) then None else files s f)"
    by (simp add: cleanOldWalk_files)
  have m: "\<forall>f. f \<in> set (filter ?stale ?listing) \<longleftrightarrow>
                  f \<in> set ?listing \<and> isHashedFile E f \<and> f \<notin> set fileSet \<and>
                  ((\<exists>d. cleanOldDays opts = Some d \<and> d > 0) \<longrightarrow>
                     statMtime E f < subtractDays E now (the (cleanOldDays opts)))"
    by (auto split: option.splits jsvalue.splits)
  show ?thesis
    by (intro exI[of _ ?s'] exI[of _ "filter ?stale ?listing"] conjI) (fact c t f m)+
qed

theorem stale_clean_deletes_witness:
  "referencedPaths distEnv (plainOptions\<lparr>cleanOldDays := Some 7\<rparr>) ''/dist'' distSession =
     Inr [''/dist/a-hcdhello.txt''] \<and>
   trace (projr (cleanOld distEnv (plainOptions\<lparr>cleanOldDays := Some 7\<rparr>) ''/dist''
                   1000000000000 distSession)) = [DeleteOp ''/dist/old-hcd1.txt''] \<and>
   trace (projr (cleanOld distEnv plainOptions ''/dist'' 1000000000000 distSession)) =
     [DeleteOp ''/dist/old-hcd1.txt'', DeleteOp ''/dist/new-hcd2.txt''] \<and>
   (\<exists>s' deleted.
      cleanOld distEnv (plainOptions\<lparr>cleanOldDays := Some 7\<rparr>) ''/dist'' 1000000000000 distSession
        = Inr s' \<and>
      trace s' = trace distSession @ map DeleteOp deleted \<and>
      (\<forall>f. f \<in> set deleted \<longleftrightarrow>
             f \<in> set (recurseDirSync distEnv (files distSession) ''/dist'') \<and>
             isHashedFile distEnv f \<and> f \<notin> set [''/dist/a-hcdhello.txt''] \<and>
             ((\<exists>d. cleanOldDays (plainOptions\<lparr>cleanOldDays := Some 7\<rparr>) = Some d \<and> d > 0) \<longrightarrow>
                statMtime distEnv f <
                  subtractDays distEnv 1000000000000
                    (the (cleanOldDays (plainOptions\<lparr>cleanOldDays := Some 7\<rparr>))))))"
proof -
  have h: "referencedPaths distEnv (plainOptions\<lparr>cleanOldDays := Some 7\<rparr>) ''/dist'' distSession =
     Inr [''/dist/a-hcdhello.txt'']" by code_simp
  have a: "trace (projr (cleanOld distEnv (plainOptions\<lparr>cleanOldDays := Some 7\<rparr>) ''/dist''
                   1000000000000 distSession)) = [DeleteOp ''/dist/old-hcd1.txt'']" by code_simp
  have b: "trace (projr (cleanOld distEnv plainOptions ''/dist'' 1000000000000 distSession)) =
     [DeleteOp ''/dist/old-hcd1.txt'', DeleteOp ''/dist/new-hcd2.txt'']" by code_simp
  from stale_clean_deletes[OF h, of 1000000000000] show ?thesis
    using h a b by blast
qed

text \<open>
  C10 (as amended). With continue-on-error enabled, let a stylesheet that is processed
  (it is eligible and the lookup map has no verified entry for it) hold a non-empty
  reference \<open>u\<close> between the tokens \<open>before\<close> and \<open>after\<close>, and let the \<open>try\<close> block of the
  recursive call for its target raise \<open>ex\<close>. Then the recursive call records
  \<open>ERROR: <target>: <ex>\<close> and returns no entry; the rewriting goes on with the reference
  unchanged, and the recorded error stays in the error list. When the rest of the
  stylesheet's own processing succeeds (the other tokens, the Entry Builder, the
  write), the stylesheet is written to its hashed path with the reference unchanged in
  its text (\<open>o1 @ u @ o2\<close>), appended to the manifest and registered; except that, in
  amend mode, when the entry carried over for the stylesheet is still unverified and
  records the hashed path of the fresh descriptor, that entry is confirmed and
  returned, and nothing is written or appended.
\<close>

theorem failed_reference_left_unhashed:
  assumes "continueOnError opts"
    and "isCss E opts css" and "eligible E opts baseDir css"
    and "\<not> verifiedEntry s (getProperty s css)"
    and "readFileSync s css = Inr src" and "cssTokens E src = before @ Url u # after"
    and "cssProcessor_processCss E opts n css baseDir targetDir before s = Some (Inr o1, sa)"
    and "\<not> verifiedEntry sa (getProperty sa (resolveReference E css baseDir u))"
    and "eligible E opts baseDir (resolveReference E css baseDir u)"
    and "tryBlock E opts n (resolveReference E css baseDir u) baseDir targetDir sa = Some (Inl ex, sf)"
    and "cssProcessor_processCss E opts n css baseDir targetDir after
           (sf\<lparr>errors := errors sf @ [''ERROR: '' @ resolveReference E css baseDir u @ '': '' @ ex]\<rparr>)
         = Some (Inr o2, sc)"
    and "createManifestEntry E opts css baseDir targetDir sc (Some (generate E (o1 @ u @ o2))) = Inr e"
    and "u \<noteq> []" and "writeError E (hashedPathPhysical e) = None"
  shows "processEntry E opts n (resolveReference E css baseDir u) baseDir targetDir sa =
           Some (Inr Falsy,
                 sf\<lparr>errors := errors sf @ [''ERROR: '' @ resolveReference E css baseDir u @ '': '' @ ex]\<rparr>)
       \<and> cssProcessor_processCss E opts n css baseDir targetDir (cssTokens E src) s =
           Some (Inr (o1 @ u @ o2), sc)
       \<and> (''ERROR: '' @ resolveReference E css baseDir u @ '': '' @ ex) \<in> set (errors sc)
       \<and> ((\<forall>r. lookupMap s css = Some r \<longrightarrow>
               \<not> (unverified (store sc ! r) \<and> hashedPath e = hashedPath (store sc ! r))) \<longrightarrow>
            processEntry E opts (Suc n) css baseDir targetDir s =
              Some (Inr (Object (length (store sc))),
                    sc\<lparr>files := (files sc)(hashedPathPhysical e \<mapsto> o1 @ u @ o2),
                       trace := trace sc @ [WriteOp (hashedPathPhysical e) (o1 @ u @ o2)],
                       store := store sc @ [e\<lparr>transformedText := None\<rparr>],
                       manifest := manifest sc @ [length (store sc)],
                       lookupMap := (lookupMap sc)(css \<mapsto> length (store sc))\<rparr>))
       \<and> (\<forall>r. lookupMap s css = Some r \<and> unverified (store sc ! r) \<and>
                hashedPath e = hashedPath (store sc ! r) \<longrightarrow>
              processEntry E opts (Suc n) css baseDir targetDir s =
                Some (Inr (Object r),
                      sc\<lparr>store := (store sc)[r := (store sc ! r)\<lparr>unverified := False\<rparr>]\<rparr>))"
proof -
  let ?t = "resolveReference E css baseDir u"
  let ?sf' = "sf\<lparr>errors := errors sf @ [''ERROR: '' @ ?t @ '': '' @ ex]\<rparr>"
  let ?e = "e\<lparr>transformedText := Some (o1 @ u @ o2)\<rparr>"
  let ?written = "sc\<lparr>files := (files sc)(hashedPathPhysical e \<mapsto> o1 @ u @ o2),
                    trace := trace sc @ [WriteOp (hashedPathPhysical e) (o1 @ u @ o2)],
                    store := store sc @ [e\<lparr>transformedText := None\<rparr>],
                    manifest := manifest sc @ [length (store sc)],
                    lookupMap := (lookupMap sc)(css \<mapsto> length (store sc))\<rparr>"
  have nested: "processEntry E opts n ?t baseDir targetDir sa = Some (Inr Falsy, ?sf')"
    using tryBlock_raises[OF assms(1,8,9,10)] .
  have ref: "cssProcessor_processCss E opts n css baseDir targetDir (cssTokens E src) s =
           Some (Inr (o1 @ u @ o2), sc)"
    using reference_without_entry[OF assms(7) nested assms(11)] assms(6) by simp
  have build: "createManifestEntryCss E opts (Suc n) css baseDir targetDir s = Some (Inr ?e, sc)"
    using assms(5,12) ref by simp
  have tb: "tryBlock E opts (Suc n) css baseDir targetDir s =
              Some (finishEntry E css (getProperty s css) ?e sc)"
    using build assms(2) by (simp add: tryBlock_def buildEntry_def)
  have mat: "materialize E css ?e sc = (Inr (Object (length (store sc))), ?written)"
    using assms(13,14) by (simp add: materialize_def writeFileSync_def Let_def)
  have pe: "processEntry E opts (Suc n) css baseDir targetDir s = Some (Inr x, s')"
    if "finishEntry E css (getProperty s css) ?e sc = (Inr x, s')" for x s'
    using processEntry_try[OF assms(4,3), of "Suc n" targetDir] tb that by simp
  have "sessionGrows ?sf' sc" using assms(11) by (rule grows_all(3))
  then have "prefix (errors ?sf') (errors sc)" by (simp add: sessionGrows_def)
  then have err: "(''ERROR: '' @ ?t @ '': '' @ ex) \<in> set (errors sc)"
    by (auto dest: set_mono_prefix)
  have fresh: "processEntry E opts (Suc n) css baseDir targetDir s =
                 Some (Inr (Object (length (store sc))), ?written)"
    if no: "\<forall>r. lookupMap s css = Some r \<longrightarrow>
               \<not> (unverified (store sc ! r) \<and> hashedPath e = hashedPath (store sc ! r))"
  proof -
    have "finishEntry E css (getProperty s css) ?e sc = materialize E css ?e sc"
      using assms(4)
    proof (cases rule: not_verified_cases)
      case absent
      then show ?thesis by (simp add: finishEntry_def)
    next
      case (unverified r)
      then show ?thesis using no by (auto simp: finishEntry_def)
    qed
    then show ?thesis using mat pe by simp
  qed
  have confirmed: "processEntry E opts (Suc n) css baseDir targetDir s =
                Some (Inr (Object r),
                      sc\<lparr>store := (store sc)[r := (store sc ! r)\<lparr>unverified := False\<rparr>]\<rparr>)"
    if "lookupMap s css = Some r \<and> unverified (store sc ! r) \<and>
          hashedPath e = hashedPath (store sc ! r)" for r
  proof -
    have "finishEntry E css (getProperty s css) ?e sc =
            (Inr (Object r), sc\<lparr>store := (store sc)[r := (store sc ! r)\<lparr>unverified := False\<rparr>]\<rparr>)"
      using that by (simp add: finishEntry_def getProperty_own)
    then show ?thesis by (rule pe)
  qed
  show ?thesis using nested ref err fresh confirmed by blast
qed

theorem failed_reference_left_unhashed_witness:
  "continueOnError cssOptions \<and>
   cssTokens readOnlyImage ''background: url(img.png)'' =
     [Text ''background: url(''] @ Url ''img.png'' # [Text '')''] \<and>
   tryBlock readOnlyImage cssOptions 0 (resolveReference readOnlyImage ''/src/style.css'' ''/src'' ''img.png'')
       ''/src'' ''/dist'' freshSession = Some (Inl ''EACCES: permission denied'', freshSession) \<and>
   processEntry readOnlyImage cssOptions 0 (resolveReference readOnlyImage ''/src/style.css'' ''/src'' ''img.png'')
       ''/src'' ''/dist'' freshSession =
     Some (Inr Falsy,
           freshSession\<lparr>errors := errors freshSession @
             [''ERROR: '' @ resolveReference readOnlyImage ''/src/style.css'' ''/src'' ''img.png''
                @ '': '' @ ''EACCES: permission denied'']\<rparr>) \<and>
   fst (the (processEntry readOnlyImage cssOptions (Suc 0) ''/src/style.css'' ''/src'' ''/dist''
               freshSession)) = Inr (Object 0) \<and>
   trace (snd (the (processEntry readOnlyImage cssOptions (Suc 0) ''/src/style.css'' ''/src'' ''/dist''
               freshSession))) =
     [WriteOp ''/dist/style-hcdbackgroundurlimgpng.css'' ''background: url(img.png)''] \<and>
   errors (snd (the (processEntry readOnlyImage cssOptions (Suc 0) ''/src/style.css'' ''/src'' ''/dist''
               freshSession))) = [''ERROR: /src/img.png: EACCES: permission denied'']"
proof -
  let ?E = readOnlyImage and ?o = cssOptions and ?s = freshSession
  let ?t = "resolveReference ?E ''/src/style.css'' ''/src'' ''img.png''"
  let ?sf = "?s\<lparr>errors := errors ?s @ [''ERROR: '' @ ?t @ '': '' @ ''EACCES: permission denied'']\<rparr>"
  let ?C = "createManifestEntry ?E ?o ''/src/style.css'' ''/src'' ''/dist'' ?sf
              (Some (generate ?E (''background: url('' @ ''img.png'' @ '')'')))"
  let ?T = "tryBlock ?E ?o 0 ?t ''/src'' ''/dist'' ?s"
  have h1: "continueOnError ?o" by code_simp
  have h2: "isCss ?E ?o ''/src/style.css''" by code_simp
  have h3: "eligible ?E ?o ''/src'' ''/src/style.css''" by code_simp
  have h4: "\<not> verifiedEntry ?s (getProperty ?s ''/src/style.css'')" by code_simp
  have h5: "readFileSync ?s ''/src/style.css'' = Inr ''background: url(img.png)''" by code_simp
  have h6: "cssTokens ?E ''background: url(img.png)'' =
              [Text ''background: url(''] @ Url ''img.png'' # [Text '')'']" by code_simp
  have h7: "cssProcessor_processCss ?E ?o 0 ''/src/style.css'' ''/src'' ''/dist''
              [Text ''background: url(''] ?s = Some (Inr ''background: url('', ?s)" by simp
  have h8: "\<not> verifiedEntry ?s (getProperty ?s ?t)" by code_simp
  have h9: "eligible ?E ?o ''/src'' ?t" by code_simp
  have "case ?T of None \<Rightarrow> False | Some (r, s) \<Rightarrow> r = Inl ''EACCES: permission denied''"
    by code_simp
  then have t0: "?T = Some (Inl ''EACCES: permission denied'', snd (the ?T))" by (rule run_resultI)
  have "\<not> isCss ?E ?o ?t" by code_simp
  from tryBlock_plain_raises[OF this t0] t0
  have h10: "?T = Some (Inl ''EACCES: permission denied'', ?s)" by simp
  have h11: "cssProcessor_processCss ?E ?o 0 ''/src/style.css'' ''/src'' ''/dist'' [Text '')''] ?sf
               = Some (Inr '')'', ?sf)" by simp
  have "case ?C of Inl a \<Rightarrow> False | Inr b \<Rightarrow> True" by code_simp
  then have h12: "?C = Inr (projr ?C)" by (rule sum_resultI)
  have h13: "''img.png'' \<noteq> []" by simp
  have h14: "writeError ?E (hashedPathPhysical (projr ?C)) = None" by code_simp
  note th = failed_reference_left_unhashed[OF h1 h2 h3 h4 h5 h6 h7 h8 h9 h10 h11 h12 h13 h14]
  have a: "processEntry ?E ?o 0 ?t ''/src'' ''/dist'' ?s = Some (Inr Falsy, ?sf)"
    using th by (elim conjE)
  have b: "fst (the (processEntry ?E ?o (Suc 0) ''/src/style.css'' ''/src'' ''/dist'' ?s)) = Inr (Object 0)"
    by code_simp
  have c: "trace (snd (the (processEntry ?E ?o (Suc 0) ''/src/style.css'' ''/src'' ''/dist'' ?s))) =
     [WriteOp ''/dist/style-hcdbackgroundurlimgpng.css'' ''background: url(img.png)'']"
    by code_simp
  have d: "errors (snd (the (processEntry ?E ?o (Suc 0) ''/src/style.css'' ''/src'' ''/dist'' ?s))) =
     [''ERROR: /src/img.png: EACCES: permission denied'']"
    by code_simp
  show ?thesis
    by (intro conjI) (fact h1 h6 h10 a b c d)+
qed

text \<open>
  The claim as stated fails when the reference resolves outside the base directory:
  the recursive call throws before its \<open>try\<close> statement instead of returning null, the
  exception is caught by the \<open>try\<close> statement of the stylesheet, and the stylesheet is
  recorded as failed: it is neither written nor appended to the manifest.
\<close>

theorem failed_reference_left_unhashed_counterexample:
  "continueOnError cssOptions \<and>
   resolveReference posix ''/src/style.css'' ''/src'' ''../other/img.png'' = ''/other/img.png'' \<and>
   (case processEntry posix cssOptions 0 ''/other/img.png'' ''/src'' ''/dist''
           (seedSession None escapingTree []) of
      Some (r, s') \<Rightarrow> r = Inl (notInBaseDir ''/other/img.png'' ''/src'') \<and> errors s' = []
    | None \<Rightarrow> False) \<and>
   (case processEntry posix cssOptions 1 ''/src/style.css'' ''/src'' ''/dist''
           (seedSession None escapingTree []) of
      Some (r, s') \<Rightarrow>
        r = Inr Falsy \<and> manifest s' = [] \<and> trace s' = [] \<and> lookupMap s' ''/src/style.css'' = None \<and>
        errors s' = [''ERROR: /src/style.css: '' @ notInBaseDir ''/other/img.png'' ''/src'']
    | None \<Rightarrow> False)"
  by code_simp







end
